theory Spec2Isabelle
  imports Complex_Main "HOL-Library.Word"
begin

section \<open>Data model\<close>

text \<open>
  Coordinates and dimensions are C++ doubles. A finite double is modelled by the real
  number it denotes, the two zeros being one value (they compare equal). Comparisons,
  minima and maxima of doubles are exact and are those of the reals. A sum or a quotient
  of doubles is the exact result rounded to a double; the rounding is defined in section
  \<open>Double arithmetic\<close>. Infinities and NaN are not values of the model: the rectangles
  and aspect-ratio bounds hold finite doubles, and an operation whose result is not a
  finite double has no value.
\<close>

text \<open>
  Struct Rect as used by the sources: \<open>bb.ll.x\<close>, \<open>bb.ll.y\<close>, \<open>bb.ur.x\<close>, \<open>bb.ur.y\<close>,
  \<open>bb.w\<close>, \<open>bb.h\<close>, \<open>bb.area\<close>.
\<close>

record Rect =
  ll_x :: real
  ll_y :: real
  ur_x :: real
  ur_y :: real
  rect_w :: real
  rect_h :: real
  rect_area :: real

text \<open>
  Class Block (Block.hpp), restricted to the members the modelled functions read or write.
  \<open>AR_min\<close> and \<open>AR_max\<close> are \<open>AR.min\<close> and \<open>AR.max\<close>.
\<close>

record Block =
  layer :: int
  placed :: bool
  bb :: Rect
  bb_backup :: Rect
  bb_best :: Rect
  AR_min :: real
  AR_max :: real
  soft :: bool
  floorplacement :: bool
  rotatable :: bool
  power_density :: real

text \<open>
  The sequences, stacks and operators hold \<open>Block const*\<close> pointers into a registry owned
  elsewhere, and mutate the blocks through them. A pointer is an address; the registry is
  a store from addresses to blocks, so that two pointers to one block alias.
\<close>

type_synonym block_ref = nat

type_synonym block_store = "block_ref \<Rightarrow> Block"

datatype Direction = HORIZONTAL | VERTICAL

text \<open>
  The corner block list of a die: three index-aligned vectors, \<open>S\<close> the blocks, \<open>L\<close> the
  insertion directions, \<open>T\<close> the junction counts (\<open>std::vector<unsigned>\<close>).
\<close>

record CornerBlockList =
  S :: "block_ref list"
  L :: "Direction list"
  T :: "32 word list"

text \<open>
  Class CorblivarDie: \<open>die_id\<close> is the member \<open>id\<close>, \<open>progress_pi\<close> the progress pointer
  \<open>pi\<close>, \<open>done_flag\<close> the member \<open>done\<close>; the stacks \<open>Hi\<close> and \<open>Vi\<close> are lists whose head
  is the top of the stack.
\<close>

record CorblivarDie =
  die_id :: int
  CBL :: CornerBlockList
  CBLbackup :: CornerBlockList
  CBLbest :: CornerBlockList
  progress_pi :: nat
  done_flag :: bool
  Hi :: "block_ref list"
  Vi :: "block_ref list"

text \<open>The state the core's operations act on: the dies of the core and the block registry.\<close>

record core_state =
  dies :: "CorblivarDie list"
  blocks :: block_store

datatype error = IndexOutOfRange | DrawsExhausted | SignedOverflow | NotFinite

section \<open>Double arithmetic\<close>

text \<open>
  A C++ double is an IEEE 754 binary64 number: 53 significant bits, binary exponents from
  \<open>-1022\<close> to \<open>1023\<close>, subnormal numbers below. The operations \<open>+\<close> and \<open>/\<close> return the
  exact result rounded to the nearest double, a tie going to the double whose last bit is
  even; a result whose rounding exceeds the largest double is an infinity.
\<close>

definition pow2 :: "int \<Rightarrow> real" where
  "pow2 e = (if 0 \<le> e then 2 ^ nat e else 1 / 2 ^ nat (- e))"

text \<open>
  The binary exponent of a magnitude \<open>a\<close>: the \<open>e\<close> with \<open>2 ^ e \<le> a < 2 ^ (e + 1)\<close>, searched
  upwards from 0 for \<open>1 \<le> a\<close> and downwards from \<open>-1\<close> otherwise, and kept within
  \<open>-1022\<close> and \<open>1023\<close>.
\<close>

function exponent_up :: "int \<Rightarrow> real \<Rightarrow> int" where
  "exponent_up e a = (if e < 1023 \<and> pow2 (e + 1) \<le> a then exponent_up (e + 1) a else e)"
  by pat_completeness auto
termination
  by (relation "measure (\<lambda>(e, a). nat (1023 - e))") auto

function exponent_down :: "int \<Rightarrow> real \<Rightarrow> int" where
  "exponent_down e a = (if - 1022 < e \<and> a < pow2 e then exponent_down (e - 1) a else e)"
  by pat_completeness auto
termination
  by (relation "measure (\<lambda>(e, a). nat (e + 1022))") auto

declare exponent_up.simps [simp del] exponent_down.simps [simp del]

definition double_exponent :: "real \<Rightarrow> int" where
  "double_exponent x = (if 1 \<le> \<bar>x\<bar> then exponent_up 0 \<bar>x\<bar> else exponent_down (- 1) \<bar>x\<bar>)"

text \<open>Rounding to the nearest integer, a tie going to the even one.\<close>

definition round_half_even :: "real \<Rightarrow> int" where
  "round_half_even q =
     (let f = \<lfloor>q\<rfloor>; r = q - of_int f
      in if r < 1 / 2 then f else if 1 / 2 < r then f + 1 else if even f then f else f + 1)"

text \<open>
  Rounding a real to the nearest multiple of the unit in the last place, which is
  \<open>2 ^ (e - 52)\<close> for the exponent \<open>e\<close> of the real.
\<close>

definition round_double :: "real \<Rightarrow> real" where
  "round_double x =
     (let ulp = pow2 (double_exponent x - 52) in of_int (round_half_even (x / ulp)) * ulp)"

text \<open>The largest finite double, \<open>(2 ^ 53 - 1) * 2 ^ 971\<close>, in decimal digits.\<close>

definition double_max :: real where
  "double_max =
     179769313486231570814527423731704356798070567525844996598917476803157260780028538760589558632766878171540458953514382464234321326889464182768467546703537516986049910576551282076245490090389328944075868508455133942304583236903222948165808559332123348274797826204144723168738177180919299881250404026184124858368"

text \<open>The double an exact result is rounded to; no value when that is an infinity.\<close>

definition to_double :: "real \<Rightarrow> real option" where
  "to_double x = (let r = round_double x in if \<bar>r\<bar> \<le> double_max then Some r else None)"

text \<open>
  The sum \<open>a + b\<close> of two doubles. The functions below store the sum in a rectangle; a sum
  that is an infinity is an error of the model, whose rectangles hold finite doubles.
\<close>

definition dadd :: "real \<Rightarrow> real \<Rightarrow> error + real" where
  "dadd a b = (case to_double (a + b) of None \<Rightarrow> Inl NotFinite | Some r \<Rightarrow> Inr r)"

text \<open>
  The quotient \<open>a / b\<close> of two doubles, or no value when the quotient is not a finite
  double: an infinity by overflow, and an infinity or NaN for the divisor zero.
\<close>

definition ddiv :: "real \<Rightarrow> real \<Rightarrow> real option" where
  "ddiv a b = (if b = 0 then None else to_double (a / b))"

section \<open>Block::shapeByWidthHeight\<close>

text \<open>
  The test \<open>AR.min <= AR && AR <= AR.max\<close> on the quotient \<open>AR\<close>. A quotient that is an
  infinity or NaN fails it: NaN compares false, and of the finite bounds \<open>AR.max\<close> is below
  the positive and \<open>AR.min\<close> above the negative infinity.
\<close>

definition AR_allowed :: "Block \<Rightarrow> real option \<Rightarrow> bool" where
  "AR_allowed b AR = (case AR of None \<Rightarrow> False | Some ar \<Rightarrow> AR_min b \<le> ar \<and> ar \<le> AR_max b)"

text \<open>
  The source computes \<open>AR = width / height\<close> on doubles, tests
  \<open>AR.min <= AR && AR <= AR.max && rotatable\<close>, and then assigns \<open>bb.ur.x = bb.ll.x + width\<close>,
  \<open>bb.ur.y = bb.ll.y + height\<close>, \<open>bb.w\<close> and \<open>bb.h\<close>. The member \<open>bb.area\<close> is not assigned.
\<close>

definition shapeByWidthHeight :: "Block \<Rightarrow> real \<Rightarrow> real \<Rightarrow> error + (bool \<times> Block)" where
  "shapeByWidthHeight b width height =
     (let AR = ddiv width height
      in if AR_allowed b AR \<and> rotatable b
         then (case dadd (ll_x (bb b)) width of
                 Inl e \<Rightarrow> Inl e
               | Inr ux \<Rightarrow>
                   (case dadd (ll_y (bb b)) height of
                      Inl e \<Rightarrow> Inl e
                    | Inr uy \<Rightarrow>
                        Inr (True, b\<lparr>bb := (bb b)\<lparr>ur_x := ux, ur_y := uy,
                                                    rect_w := width, rect_h := height\<rparr>\<rparr>)))
         else Inr (False, b))"

section \<open>Corner block lists\<close>

text \<open>
  Modelled from the spec: the header declaring the corner block list is not among the
  sources. The spec describes a sequence as three parallel ordered lists of equal length;
  \<open>clear\<close> empties the three lists, \<open>empty\<close> and \<open>size\<close> read the block list.
  \<open>reserve\<close> and \<open>capacity\<close> only manage memory and are left out.
\<close>

definition CBL_clear :: "CornerBlockList \<Rightarrow> CornerBlockList" where
  "CBL_clear cbl = cbl\<lparr>S := [], L := [], T := []\<rparr>"

text \<open>Modelled from the spec: \<open>empty()\<close> of the corner block list (header not among the sources).\<close>

definition CBL_empty :: "CornerBlockList \<Rightarrow> bool" where
  "CBL_empty cbl \<longleftrightarrow> S cbl = []"

text \<open>Modelled from the spec: \<open>size()\<close> of the corner block list (header not among the sources).\<close>

definition CBL_size :: "CornerBlockList \<Rightarrow> nat" where
  "CBL_size cbl = length (S cbl)"

text \<open>
  An index \<open>tuple\<close> of type int addresses a tuple of a corner block list when it is within
  the three vectors; \<open>operator[]\<close> outside of a vector is undefined behaviour, which the
  model reports as \<open>IndexOutOfRange\<close>.
\<close>

definition tuple_in_range :: "CornerBlockList \<Rightarrow> int \<Rightarrow> bool" where
  "tuple_in_range cbl tuple \<longleftrightarrow>
     0 \<le> tuple \<and> nat tuple < length (S cbl) \<and> nat tuple < length (L cbl) \<and> nat tuple < length (T cbl)"

definition die_in_range :: "core_state \<Rightarrow> int \<Rightarrow> bool" where
  "die_in_range c die \<longleftrightarrow> 0 \<le> die \<and> nat die < length (dies c)"

text \<open>\<open>dies[die]\<close> for an index that is in range.\<close>

definition the_die :: "core_state \<Rightarrow> int \<Rightarrow> CorblivarDie" where
  "the_die c die = dies c ! nat die"

text \<open>\<open>std::vector::insert(begin() + pos, v)\<close> and \<open>std::vector::erase(begin() + pos)\<close>.\<close>

definition vec_insert :: "nat \<Rightarrow> 'a \<Rightarrow> 'a list \<Rightarrow> 'a list" where
  "vec_insert pos v xs = take pos xs @ v # drop pos xs"

definition vec_erase :: "nat \<Rightarrow> 'a list \<Rightarrow> 'a list" where
  "vec_erase pos xs = take pos xs @ drop (Suc pos) xs"

section \<open>CorblivarCore: layout-modification operations\<close>

text \<open>
  \<open>swapBlocks\<close>: the layer fields of the two blocks are assigned one after the other
  through the pointers read from \<open>S\<close>, then \<open>std::swap\<close> exchanges the two entries of \<open>S\<close>.
  The vectors \<open>L\<close> and \<open>T\<close> are not touched.
\<close>

definition swapBlocks :: "core_state \<Rightarrow> int \<Rightarrow> int \<Rightarrow> int \<Rightarrow> int \<Rightarrow> error + core_state" where
  "swapBlocks c die1 die2 tuple1 tuple2 =
     (if \<not> (die_in_range c die1 \<and> die_in_range c die2) then Inl IndexOutOfRange
      else if \<not> (0 \<le> tuple1 \<and> nat tuple1 < length (S (CBL (the_die c die1)))
                \<and> 0 \<le> tuple2 \<and> nat tuple2 < length (S (CBL (the_die c die2))))
      then Inl IndexOutOfRange
      else
        let b1 = S (CBL (the_die c die1)) ! nat tuple1;
            b2 = S (CBL (the_die c die2)) ! nat tuple2;
            st0 = blocks c;
            st1 = (if die1 \<noteq> die2 then st0(b1 := (st0 b1)\<lparr>layer := die2\<rparr>) else st0);
            st2 = (if die1 \<noteq> die2 then st1(b2 := (st1 b2)\<lparr>layer := die1\<rparr>) else st1);
            d1 = the_die c die1;
            ds1 = (dies c)[nat die1 := d1\<lparr>CBL := (CBL d1)\<lparr>S := (S (CBL d1))[nat tuple1 := b2]\<rparr>\<rparr>];
            d2 = ds1 ! nat die2;
            ds2 = ds1[nat die2 := d2\<lparr>CBL := (CBL d2)\<lparr>S := (S (CBL d2))[nat tuple2 := b1]\<rparr>\<rparr>]
        in Inr (c\<lparr>dies := ds2, blocks := st2\<rparr>))"

text \<open>
  \<open>moveTuples\<close>. Within one die the tuple is copied, inserted at offset \<open>tuple2\<close> and the
  source erased at \<open>tuple1 + 1\<close> when \<open>tuple1 > tuple2\<close> and at \<open>tuple1\<close> otherwise. Across
  dies the block's layer is assigned first, then the tuple is inserted into \<open>die2\<close> and
  erased from \<open>die1\<close>. An insert position may be the end of the vector.
\<close>

definition moveTuples :: "core_state \<Rightarrow> int \<Rightarrow> int \<Rightarrow> int \<Rightarrow> int \<Rightarrow> error + core_state" where
  "moveTuples c die1 die2 tuple1 tuple2 =
     (if \<not> (die_in_range c die1 \<and> die_in_range c die2) then Inl IndexOutOfRange
      else if \<not> tuple_in_range (CBL (the_die c die1)) tuple1 then Inl IndexOutOfRange
      else if \<not> (0 \<le> tuple2 \<and> nat tuple2 \<le> length (S (CBL (the_die c die2)))
                \<and> nat tuple2 \<le> length (L (CBL (the_die c die2)))
                \<and> nat tuple2 \<le> length (T (CBL (the_die c die2))))
      then Inl IndexOutOfRange
      else
        let d1 = the_die c die1;
            t1_S = S (CBL d1) ! nat tuple1;
            t1_L = L (CBL d1) ! nat tuple1;
            t1_T = T (CBL d1) ! nat tuple1
        in if die1 = die2 then
             (let ins = (CBL d1)\<lparr>S := vec_insert (nat tuple2) t1_S (S (CBL d1)),
                                 L := vec_insert (nat tuple2) t1_L (L (CBL d1)),
                                 T := vec_insert (nat tuple2) t1_T (T (CBL d1))\<rparr>;
                  pos = (if tuple1 > tuple2 then nat tuple1 + 1 else nat tuple1);
                  ers = ins\<lparr>S := vec_erase pos (S ins),
                            L := vec_erase pos (L ins),
                            T := vec_erase pos (T ins)\<rparr>
              in Inr (c\<lparr>dies := (dies c)[nat die1 := d1\<lparr>CBL := ers\<rparr>]\<rparr>))
           else
             (let st0 = blocks c;
                  st1 = st0(t1_S := (st0 t1_S)\<lparr>layer := die2\<rparr>);
                  d2 = the_die c die2;
                  ins = (CBL d2)\<lparr>S := vec_insert (nat tuple2) t1_S (S (CBL d2)),
                                 L := vec_insert (nat tuple2) t1_L (L (CBL d2)),
                                 T := vec_insert (nat tuple2) t1_T (T (CBL d2))\<rparr>;
                  ds1 = (dies c)[nat die2 := d2\<lparr>CBL := ins\<rparr>];
                  ers = (CBL d1)\<lparr>S := vec_erase (nat tuple1) (S (CBL d1)),
                                 L := vec_erase (nat tuple1) (L (CBL d1)),
                                 T := vec_erase (nat tuple1) (T (CBL d1))\<rparr>;
                  ds2 = ds1[nat die1 := d1\<lparr>CBL := ers\<rparr>]
              in Inr (c\<lparr>dies := ds2, blocks := st1\<rparr>)))"

text \<open>
  \<open>switchTupleJunctions\<close> assigns the int \<open>juncts\<close> to an unsigned element of \<open>T\<close>: the value
  is converted modulo \<open>2 ^ 32\<close>.
\<close>

definition switchTupleJunctions :: "core_state \<Rightarrow> int \<Rightarrow> int \<Rightarrow> int \<Rightarrow> error + core_state" where
  "switchTupleJunctions c die tuple juncts =
     (if \<not> die_in_range c die then Inl IndexOutOfRange
      else if \<not> (0 \<le> tuple \<and> nat tuple < length (T (CBL (the_die c die)))) then Inl IndexOutOfRange
      else
        let d = the_die c die
        in Inr (c\<lparr>dies := (dies c)[nat die := d\<lparr>CBL := (CBL d)\<lparr>T := (T (CBL d))[nat tuple := word_of_int juncts]\<rparr>\<rparr>]\<rparr>))"

section \<open>CorblivarCore: backup, restore and best solution\<close>

text \<open>
  The loop over \<open>die.CBL.S\<close> of \<open>backupCBLs\<close>: the rectangle is copied into the block's
  \<open>bb_backup\<close> and the pointer appended to the backup list.
\<close>

fun backup_blocks :: "block_ref list \<Rightarrow> CornerBlockList \<Rightarrow> block_store \<Rightarrow> CornerBlockList \<times> block_store" where
  "backup_blocks [] bk st = (bk, st)"
| "backup_blocks (b # bs) bk st =
     backup_blocks bs (bk\<lparr>S := S bk @ [b]\<rparr>) (st(b := (st b)\<lparr>bb_backup := bb (st b)\<rparr>))"

text \<open>The loops copying the directions and the junction counts, shared by all four handlers.\<close>

definition copy_L :: "Direction list \<Rightarrow> CornerBlockList \<Rightarrow> CornerBlockList" where
  "copy_L ls cbl = fold (\<lambda>dir acc. acc\<lparr>L := L acc @ [dir]\<rparr>) ls cbl"

definition copy_T :: "32 word list \<Rightarrow> CornerBlockList \<Rightarrow> CornerBlockList" where
  "copy_T ts cbl = fold (\<lambda>t_juncts acc. acc\<lparr>T := T acc @ [t_juncts]\<rparr>) ts cbl"

definition backup_die :: "CorblivarDie \<Rightarrow> block_store \<Rightarrow> CorblivarDie \<times> block_store" where
  "backup_die die st =
     (let (bk, st') = backup_blocks (S (CBL die)) (CBL_clear (CBLbackup die)) st
      in (die\<lparr>CBLbackup := copy_T (T (CBL die)) (copy_L (L (CBL die)) bk)\<rparr>, st'))"

fun backup_dies :: "CorblivarDie list \<Rightarrow> block_store \<Rightarrow> CorblivarDie list \<times> block_store" where
  "backup_dies [] st = ([], st)"
| "backup_dies (die # ds) st =
     (let (die', st') = backup_die die st;
          (ds', st'') = backup_dies ds st'
      in (die' # ds', st''))"

definition backupCBLs :: "core_state \<Rightarrow> core_state" where
  "backupCBLs c = (let (ds, st) = backup_dies (dies c) (blocks c) in c\<lparr>dies := ds, blocks := st\<rparr>)"

text \<open>
  The loop over \<open>die.CBLbackup.S\<close> of \<open>restoreCBLs\<close>: the rectangle is copied back, the
  layer is set to the die's id and the pointer appended to the current list.
\<close>

fun restore_blocks :: "int \<Rightarrow> block_ref list \<Rightarrow> CornerBlockList \<Rightarrow> block_store \<Rightarrow> CornerBlockList \<times> block_store" where
  "restore_blocks i [] cur st = (cur, st)"
| "restore_blocks i (b # bs) cur st =
     restore_blocks i bs (cur\<lparr>S := S cur @ [b]\<rparr>) (st(b := (st b)\<lparr>bb := bb_backup (st b), layer := i\<rparr>))"

definition restore_die :: "CorblivarDie \<Rightarrow> block_store \<Rightarrow> CorblivarDie \<times> block_store" where
  "restore_die die st =
     (let (cur, st') = restore_blocks (die_id die) (S (CBLbackup die)) (CBL_clear (CBL die)) st
      in (die\<lparr>CBL := copy_T (T (CBLbackup die)) (copy_L (L (CBLbackup die)) cur)\<rparr>, st'))"

fun restore_dies :: "CorblivarDie list \<Rightarrow> block_store \<Rightarrow> CorblivarDie list \<times> block_store" where
  "restore_dies [] st = ([], st)"
| "restore_dies (die # ds) st =
     (let (die', st') = restore_die die st;
          (ds', st'') = restore_dies ds st'
      in (die' # ds', st''))"

definition restoreCBLs :: "core_state \<Rightarrow> core_state" where
  "restoreCBLs c = (let (ds, st) = restore_dies (dies c) (blocks c) in c\<lparr>dies := ds, blocks := st\<rparr>)"

text \<open>
  The loop over \<open>die.CBLbest.S\<close> of \<open>applyBestCBLs\<close>, which reads \<open>bb_best\<close>.
\<close>

fun apply_best_blocks :: "int \<Rightarrow> block_ref list \<Rightarrow> CornerBlockList \<Rightarrow> block_store \<Rightarrow> CornerBlockList \<times> block_store" where
  "apply_best_blocks i [] cur st = (cur, st)"
| "apply_best_blocks i (b # bs) cur st =
     apply_best_blocks i bs (cur\<lparr>S := S cur @ [b]\<rparr>) (st(b := (st b)\<lparr>bb := bb_best (st b), layer := i\<rparr>))"

text \<open>
  One iteration of the loop of \<open>applyBestCBLs\<close>: the current list is cleared first; a die
  whose best list is empty increments the counter \<open>empty_dies\<close> (an unsigned) and is left
  at that (\<open>continue\<close>).
\<close>

definition apply_best_die :: "CorblivarDie \<Rightarrow> block_store \<Rightarrow> 32 word \<Rightarrow> CorblivarDie \<times> block_store \<times> 32 word" where
  "apply_best_die die st empty_dies =
     (let cleared = CBL_clear (CBL die)
      in if CBL_empty (CBLbest die) then (die\<lparr>CBL := cleared\<rparr>, st, empty_dies + 1)
         else
           (let (cur, st') = apply_best_blocks (die_id die) (S (CBLbest die)) cleared st
            in (die\<lparr>CBL := copy_T (T (CBLbest die)) (copy_L (L (CBLbest die)) cur)\<rparr>, st', empty_dies)))"

fun apply_best_dies :: "CorblivarDie list \<Rightarrow> block_store \<Rightarrow> 32 word \<Rightarrow> CorblivarDie list \<times> block_store \<times> 32 word" where
  "apply_best_dies [] st empty_dies = ([], st, empty_dies)"
| "apply_best_dies (die # ds) st empty_dies =
     (let (die', st', empty_dies') = apply_best_die die st empty_dies;
          (ds', st'', empty_dies'') = apply_best_dies ds st' empty_dies'
      in (die' # ds', st'', empty_dies''))"

text \<open>
  \<open>applyBestCBLs\<close>: \<open>ret = (empty_dies != this->dies.size())\<close> compares the unsigned counter
  with the number of dies. The message printed when \<open>log\<close> is set is not modelled.
\<close>

definition applyBestCBLs :: "core_state \<Rightarrow> bool \<times> core_state" where
  "applyBestCBLs c =
     (let (ds, st, empty_dies) = apply_best_dies (dies c) (blocks c) 0
      in (unat empty_dies \<noteq> length ds, c\<lparr>dies := ds, blocks := st\<rparr>))"

section \<open>LayoutOperations\<close>

text \<open>
  Sequencing of computations that may fail: the first failure is the result.
\<close>

definition bindE :: "error + 'a \<Rightarrow> ('a \<Rightarrow> error + 'b) \<Rightarrow> error + 'b" where
  "bindE m f = (case m of Inl e \<Rightarrow> Inl e | Inr v \<Rightarrow> f v)"

text \<open>
  Modelled from the spec: Math.hpp is not among the sources. The spec lists a uniform
  random source providing integer range and boolean draws among the collaborators. The
  source is a tape of the values the calls return, consumed in order: \<open>randI\<close> takes the
  next integer, \<open>randB\<close> the next boolean; a tape that has run out is \<open>DrawsExhausted\<close>.
  The tape is not required to respect the range asked for: every run of the program is
  the run on some tape.
\<close>

record rand_source =
  ints :: "int list"
  bools :: "bool list"

definition randI :: "int \<Rightarrow> int \<Rightarrow> rand_source \<Rightarrow> error + (int \<times> rand_source)" where
  "randI lo hi rnd = (case ints rnd of [] \<Rightarrow> Inl DrawsExhausted | v # vs \<Rightarrow> Inr (v, rnd\<lparr>ints := vs\<rparr>))"

text \<open>Modelled from the spec: the boolean draw of the random source (Math.hpp is not among the sources).\<close>

definition randB :: "rand_source \<Rightarrow> error + (bool \<times> rand_source)" where
  "randB rnd = (case bools rnd of [] \<Rightarrow> Inl DrawsExhausted | b # bs \<Rightarrow> Inr (b, rnd\<lparr>bools := bs\<rparr>))"

text \<open>
  The members of \<open>this->parameters\<close> that the two operators read, and the operands
  memorized for reverting the last operation.
\<close>

record parameters =
  param_layers :: int
  param_power_aware_block_handling :: bool
  param_floorplacement :: bool

record LayoutOperations =
  params :: parameters
  last_op_die1 :: int
  last_op_die2 :: int
  last_op_tuple1 :: int
  last_op_tuple2 :: int
  last_op_juncts :: int

text \<open>The op-codes, as the comments of \<open>performRandomLayoutOp\<close> give them.\<close>

definition OP_SWAP_BLOCKS :: int where
  "OP_SWAP_BLOCKS = 1"

definition OP_MOVE_TUPLE :: int where
  "OP_MOVE_TUPLE = 2"

text \<open>\<open>CorblivarCore::getDie\<close>: \<open>dies[die]\<close>.\<close>

definition getDie :: "core_state \<Rightarrow> int \<Rightarrow> error + CorblivarDie" where
  "getDie c die = (if die_in_range c die then Inr (the_die c die) else Inl IndexOutOfRange)"

text \<open>
  Modelled from the spec: the accessors \<open>getBlock\<close> and \<open>getJunctions\<close> of a die are
  declared in a header that is not among the sources; they read the block and the
  junction count of the tuple at an index of the die's current sequence.
\<close>

definition getBlock :: "CorblivarDie \<Rightarrow> int \<Rightarrow> error + block_ref" where
  "getBlock die tuple =
     (if 0 \<le> tuple \<and> nat tuple < length (S (CBL die)) then Inr (S (CBL die) ! nat tuple)
      else Inl IndexOutOfRange)"

text \<open>Modelled from the spec: see \<open>getBlock\<close>.\<close>

definition getJunctions :: "CorblivarDie \<Rightarrow> int \<Rightarrow> error + 32 word" where
  "getJunctions die tuple =
     (if 0 \<le> tuple \<and> nat tuple < length (T (CBL die)) then Inr (T (CBL die) ! nat tuple)
      else Inl IndexOutOfRange)"

text \<open>
  An int result of \<open>++\<close> or \<open>--\<close> outside of the 32-bit range is undefined behaviour,
  reported as \<open>SignedOverflow\<close>.
\<close>

definition int_range :: "int \<Rightarrow> error + int" where
  "int_range v = (if - (2 ^ 31) \<le> v \<and> v < 2 ^ 31 then Inr v else Inl SignedOverflow)"

text \<open>
  \<open>performOpSwitchTupleJunctions\<close>. The result carries the return value, the core, the
  reference parameters \<open>die1\<close>, \<open>tuple1\<close> and \<open>juncts\<close> as the call leaves them, and the
  rest of the random tape. \<open>juncts\<close> and \<open>new_juncts\<close> are ints: the unsigned junction
  count is read as a two's complement value.
\<close>

definition performOpSwitchTupleJunctions ::
  "LayoutOperations \<Rightarrow> bool \<Rightarrow> core_state \<Rightarrow> int \<Rightarrow> int \<Rightarrow> int \<Rightarrow> rand_source
     \<Rightarrow> error + (bool \<times> core_state \<times> int \<times> int \<times> int \<times> rand_source)" where
  "performOpSwitchTupleJunctions ops revert corb die1 tuple1 juncts rnd =
     (if \<not> revert then
        bindE (if die1 = -1 then randI 0 (param_layers (params ops)) rnd else Inr (die1, rnd))
          (\<lambda>(die1, rnd).
        bindE (getDie corb die1) (\<lambda>die.
        if CBL_empty (CBL die) then Inr (False, corb, die1, tuple1, juncts, rnd)
        else
        bindE (if tuple1 = -1 then randI 0 (int (CBL_size (CBL die))) rnd else Inr (tuple1, rnd))
          (\<lambda>(tuple1, rnd).
        bindE (getJunctions die tuple1) (\<lambda>t.
        let juncts = sint t in
        bindE (if juncts = 0 then Inr (juncts + 1, rnd)
               else bindE (randB rnd) (\<lambda>(up, rnd).
                      if up then Inr (juncts + 1, rnd) else Inr (juncts - 1, rnd)))
          (\<lambda>(new_juncts, rnd).
        bindE (int_range new_juncts) (\<lambda>new_juncts.
        bindE (switchTupleJunctions corb die1 tuple1 new_juncts) (\<lambda>corb'.
        Inr (True, corb', die1, tuple1, juncts, rnd))))))))
      else
        bindE (switchTupleJunctions corb (last_op_die1 ops) (last_op_tuple1 ops) (last_op_juncts ops))
          (\<lambda>corb'. Inr (True, corb', die1, tuple1, juncts, rnd)))"

text \<open>
  The loop \<open>while (tuple1 == tuple2) tuple2 = Math::randI(0, size)\<close>, on the tape of
  integer draws.
\<close>

fun redraw_tuple2 :: "int \<Rightarrow> int \<Rightarrow> int list \<Rightarrow> error + (int \<times> int list)" where
  "redraw_tuple2 tuple1 tuple2 draws =
     (if tuple1 = tuple2 then
        (case draws of [] \<Rightarrow> Inl DrawsExhausted | v # vs \<Rightarrow> redraw_tuple2 tuple1 v vs)
      else Inr (tuple2, draws))"

text \<open>
  \<open>performOpMoveOrSwapBlocks\<close>, block by block in the order of the source. The operators
  \<open>||\<close> and \<open>&&\<close> evaluate their right operand only when needed.
\<close>

text \<open>Randomly select die, if not preassigned.\<close>

definition select_dies ::
  "LayoutOperations \<Rightarrow> int \<Rightarrow> int \<Rightarrow> rand_source \<Rightarrow> error + (int \<times> int \<times> rand_source)" where
  "select_dies ops die1 die2 rnd =
     bindE (if die1 = -1 then randI 0 (param_layers (params ops)) rnd else Inr (die1, rnd))
       (\<lambda>(die1, rnd).
     bindE (if die2 = -1 then randI 0 (param_layers (params ops)) rnd else Inr (die2, rnd))
       (\<lambda>(die2, rnd). Inr (die1, die2, rnd)))"

text \<open>Sanity check for the empty origin die of a move, for empty dies of a swap.\<close>

definition empty_die_check :: "int \<Rightarrow> core_state \<Rightarrow> int \<Rightarrow> int \<Rightarrow> error + bool" where
  "empty_die_check mode corb die1 die2 =
     (if mode = OP_MOVE_TUPLE then
        bindE (getDie corb die1) (\<lambda>d1. Inr (CBL_empty (CBL d1)))
      else if mode = OP_SWAP_BLOCKS then
        bindE (getDie corb die1) (\<lambda>d1.
          if CBL_empty (CBL d1) then Inr True
          else bindE (getDie corb die2) (\<lambda>d2. Inr (CBL_empty (CBL d2))))
      else Inr False)"

text \<open>Randomly select tuple, if not preassigned.\<close>

definition select_tuples ::
  "core_state \<Rightarrow> int \<Rightarrow> int \<Rightarrow> int \<Rightarrow> int \<Rightarrow> rand_source \<Rightarrow> error + (int \<times> int \<times> rand_source)" where
  "select_tuples corb die1 die2 tuple1 tuple2 rnd =
     bindE (if tuple1 = -1 then
              bindE (getDie corb die1) (\<lambda>d1. randI 0 (int (CBL_size (CBL d1))) rnd)
            else Inr (tuple1, rnd))
       (\<lambda>(tuple1, rnd).
     bindE (if tuple2 = -1 then
              bindE (getDie corb die2) (\<lambda>d2. randI 0 (int (CBL_size (CBL d2))) rnd)
            else Inr (tuple2, rnd))
       (\<lambda>(tuple2, rnd). Inr (tuple1, tuple2, rnd)))"

text \<open>
  Within one die the tuples are to differ, which needs two tuples in the die. The result
  says whether the die has too few tuples, and gives \<open>tuple2\<close> and the tape after the loop.
\<close>

definition different_tuples ::
  "core_state \<Rightarrow> int \<Rightarrow> int \<Rightarrow> int \<Rightarrow> int \<Rightarrow> rand_source \<Rightarrow> error + (bool \<times> int \<times> rand_source)" where
  "different_tuples corb die1 die2 tuple1 tuple2 rnd =
     (if die1 = die2 then
        bindE (getDie corb die1) (\<lambda>d1.
          if CBL_size (CBL d1) < 2 then Inr (True, tuple2, rnd)
          else bindE (redraw_tuple2 tuple1 tuple2 (ints rnd))
                 (\<lambda>(tuple2, draws). Inr (False, tuple2, rnd\<lparr>ints := draws\<rparr>)))
      else Inr (False, tuple2, rnd))"

text \<open>Power-aware block handling: blocks of lower power density remain in the lower layer.\<close>

definition power_aware_violation ::
  "LayoutOperations \<Rightarrow> core_state \<Rightarrow> int \<Rightarrow> int \<Rightarrow> int \<Rightarrow> int \<Rightarrow> error + bool" where
  "power_aware_violation ops corb die1 die2 tuple1 tuple2 =
     (if param_power_aware_block_handling (params ops) then
        (if die1 < die2 then
           bindE (getDie corb die1) (\<lambda>d1. bindE (getBlock d1 tuple1) (\<lambda>b1.
           bindE (getDie corb die2) (\<lambda>d2. bindE (getBlock d2 tuple2) (\<lambda>b2.
           Inr (power_density (blocks corb b1) < power_density (blocks corb b2))))))
         else if die2 < die1 then
           bindE (getDie corb die2) (\<lambda>d2. bindE (getBlock d2 tuple2) (\<lambda>b2.
           bindE (getDie corb die1) (\<lambda>d1. bindE (getBlock d1 tuple1) (\<lambda>b1.
           Inr (power_density (blocks corb b2) < power_density (blocks corb b1))))))
         else Inr False)
      else Inr False)"

text \<open>In SA phase one, floorplacement blocks are not moved or swapped.\<close>

definition floorplacement_ban ::
  "LayoutOperations \<Rightarrow> bool \<Rightarrow> core_state \<Rightarrow> int \<Rightarrow> int \<Rightarrow> int \<Rightarrow> int \<Rightarrow> error + bool" where
  "floorplacement_ban ops SA_phase_one corb die1 die2 tuple1 tuple2 =
     (if param_floorplacement (params ops) \<and> SA_phase_one then
        bindE (getDie corb die1) (\<lambda>d1. bindE (getBlock d1 tuple1) (\<lambda>b1.
        if floorplacement (blocks corb b1) then Inr True
        else bindE (getDie corb die2) (\<lambda>d2. bindE (getBlock d2 tuple2) (\<lambda>b2.
               Inr (floorplacement (blocks corb b2))))))
      else Inr False)"

text \<open>Perform move or swap.\<close>

definition move_or_swap :: "int \<Rightarrow> core_state \<Rightarrow> int \<Rightarrow> int \<Rightarrow> int \<Rightarrow> int \<Rightarrow> error + core_state" where
  "move_or_swap mode corb die1 die2 tuple1 tuple2 =
     (if mode = OP_MOVE_TUPLE then moveTuples corb die1 die2 tuple1 tuple2
      else if mode = OP_SWAP_BLOCKS then swapBlocks corb die1 die2 tuple1 tuple2
      else Inr corb)"

text \<open>
  The result carries the return value, the core, the reference parameters \<open>die1\<close>, \<open>die2\<close>,
  \<open>tuple1\<close> and \<open>tuple2\<close> as the call leaves them, and the rest of the random tape.
\<close>

definition performOpMoveOrSwapBlocks ::
  "LayoutOperations \<Rightarrow> int \<Rightarrow> bool \<Rightarrow> bool \<Rightarrow> core_state \<Rightarrow> int \<Rightarrow> int \<Rightarrow> int \<Rightarrow> int \<Rightarrow> rand_source
     \<Rightarrow> error + (bool \<times> core_state \<times> int \<times> int \<times> int \<times> int \<times> rand_source)" where
  "performOpMoveOrSwapBlocks ops mode revert SA_phase_one corb die1 die2 tuple1 tuple2 rnd =
     (if \<not> revert then
        bindE (select_dies ops die1 die2 rnd) (\<lambda>(die1, die2, rnd).
        bindE (empty_die_check mode corb die1 die2) (\<lambda>empty_die.
        if empty_die then Inr (False, corb, die1, die2, tuple1, tuple2, rnd)
        else
        bindE (select_tuples corb die1 die2 tuple1 tuple2 rnd) (\<lambda>(tuple1, tuple2, rnd).
        bindE (different_tuples corb die1 die2 tuple1 tuple2 rnd) (\<lambda>(too_few, tuple2, rnd).
        if too_few then Inr (False, corb, die1, die2, tuple1, tuple2, rnd)
        else
        bindE (power_aware_violation ops corb die1 die2 tuple1 tuple2) (\<lambda>violation.
        if violation then Inr (False, corb, die1, die2, tuple1, tuple2, rnd)
        else
        bindE (floorplacement_ban ops SA_phase_one corb die1 die2 tuple1 tuple2) (\<lambda>banned.
        if banned then Inr (False, corb, die1, die2, tuple1, tuple2, rnd)
        else
        bindE (move_or_swap mode corb die1 die2 tuple1 tuple2) (\<lambda>corb'.
        Inr (True, corb', die1, die2, tuple1, tuple2, rnd))))))))
      else
        bindE (if mode = OP_MOVE_TUPLE then
                 moveTuples corb (last_op_die2 ops) (last_op_die1 ops) (last_op_tuple2 ops) (last_op_tuple1 ops)
               else if mode = OP_SWAP_BLOCKS then
                 swapBlocks corb (last_op_die1 ops) (last_op_die2 ops) (last_op_tuple1 ops) (last_op_tuple2 ops)
               else Inr corb)
          (\<lambda>corb'. Inr (True, corb', die1, die2, tuple1, tuple2, rnd)))"

text \<open>
  The failures of operand selection. There are no operands to select: the origin die of
  a move is empty, a die of a swap is empty, or the operation is within one die that
  holds fewer than two tuples. Or the operands selected are rejected: they violate the
  power-aware layering, or one of them is a floorplacement block in SA phase one.
\<close>

definition no_operands :: "int \<Rightarrow> core_state \<Rightarrow> int \<Rightarrow> int \<Rightarrow> bool" where
  "no_operands mode c die1 die2 \<longleftrightarrow>
     (mode = OP_MOVE_TUPLE \<and> CBL_empty (CBL (the_die c die1)))
   \<or> (mode = OP_SWAP_BLOCKS
        \<and> (CBL_empty (CBL (the_die c die1)) \<or> CBL_empty (CBL (the_die c die2))))
   \<or> (die1 = die2 \<and> CBL_size (CBL (the_die c die1)) < 2)"

definition operands_rejected ::
  "LayoutOperations \<Rightarrow> bool \<Rightarrow> core_state \<Rightarrow> int \<Rightarrow> int \<Rightarrow> int \<Rightarrow> int \<Rightarrow> bool" where
  "operands_rejected ops SA_phase_one c die1 die2 tuple1 tuple2 \<longleftrightarrow>
     (let b1 = blocks c (S (CBL (the_die c die1)) ! nat tuple1);
          b2 = blocks c (S (CBL (the_die c die2)) ! nat tuple2)
      in (param_power_aware_block_handling (params ops)
            \<and> (die1 < die2 \<and> power_density b1 < power_density b2
               \<or> die2 < die1 \<and> power_density b2 < power_density b1))
       \<or> (param_floorplacement (params ops) \<and> SA_phase_one
            \<and> (floorplacement b1 \<or> floorplacement b2)))"

definition operand_selection_fails ::
  "LayoutOperations \<Rightarrow> int \<Rightarrow> bool \<Rightarrow> core_state \<Rightarrow> int \<Rightarrow> int \<Rightarrow> int \<Rightarrow> int \<Rightarrow> bool" where
  "operand_selection_fails ops mode SA_phase_one c die1 die2 tuple1 tuple2 \<longleftrightarrow>
     no_operands mode c die1 die2 \<or> operands_rejected ops SA_phase_one c die1 die2 tuple1 tuple2"

text \<open>
  Operands given by the caller that the operator can work on: both tuples index the
  block lists of their dies and, within one die, differ.
\<close>

definition operands_given :: "core_state \<Rightarrow> int \<Rightarrow> int \<Rightarrow> int \<Rightarrow> int \<Rightarrow> bool" where
  "operands_given c die1 die2 tuple1 tuple2 \<longleftrightarrow>
     0 \<le> tuple1 \<and> nat tuple1 < length (S (CBL (the_die c die1)))
   \<and> 0 \<le> tuple2 \<and> nat tuple2 < length (S (CBL (the_die c die2)))
   \<and> (die1 = die2 \<longrightarrow> tuple1 \<noteq> tuple2)"

text \<open>The junction count of the tuple at an index of a die's current sequence.\<close>

definition junctions_at :: "core_state \<Rightarrow> int \<Rightarrow> int \<Rightarrow> 32 word" where
  "junctions_at c die tuple = T (CBL (the_die c die)) ! nat tuple"

section \<open>CorblivarDie: placing the current block\<close>

text \<open>
  The static predicates of \<open>Rect\<close> that \<open>placeCurrentBlock\<close> calls. Rect.hpp is not among
  the sources, so the model of \<open>placeCurrentBlock\<close> takes them as a parameter: what is
  proved of it holds for whatever the four predicates compute. The third argument of
  \<open>rectA_below_rectB\<close> and \<open>rectA_leftOf_rectB\<close> is the flag to consider the intersection
  in the other direction.
\<close>

record rect_preds =
  rectsIntersectVertical :: "Rect \<Rightarrow> Rect \<Rightarrow> bool"
  rectsIntersectHorizontal :: "Rect \<Rightarrow> Rect \<Rightarrow> bool"
  rectA_below_rectB :: "Rect \<Rightarrow> Rect \<Rightarrow> bool \<Rightarrow> bool"
  rectA_leftOf_rectB :: "Rect \<Rightarrow> Rect \<Rightarrow> bool \<Rightarrow> bool"

text \<open>
  Modelled from the spec: the predicates of Rect.hpp, which is not among the sources, as
  the spec words them: two rectangles intersect vertically when their height spans
  overlap; a rectangle is left of another one when it ends where the other one begins or
  before, and below it when it ends where the other one begins or beneath, the
  intersection in the other direction being required on demand. Used for the examples
  only.
\<close>

definition spec_rect_preds :: rect_preds where
  "spec_rect_preds =
     \<lparr>rectsIntersectVertical = (\<lambda>a b. ll_y a < ur_y b \<and> ll_y b < ur_y a),
      rectsIntersectHorizontal = (\<lambda>a b. ll_x a < ur_x b \<and> ll_x b < ur_x a),
      rectA_below_rectB = (\<lambda>a b considerHorizontalIntersect.
         ur_y a \<le> ll_y b \<and> (considerHorizontalIntersect \<longrightarrow> ll_x a < ur_x b \<and> ll_x b < ur_x a)),
      rectA_leftOf_rectB = (\<lambda>a b considerVerticalIntersect.
         ur_x a \<le> ll_x b \<and> (considerVerticalIntersect \<longrightarrow> ll_y a < ur_y b \<and> ll_y b < ur_y a))\<rparr>"

text \<open>Modelled from the spec: see \<open>getBlock\<close>.\<close>

definition getDirection :: "CorblivarDie \<Rightarrow> int \<Rightarrow> error + Direction" where
  "getDirection die tuple =
     (if 0 \<le> tuple \<and> nat tuple < length (L (CBL die)) then Inr (L (CBL die) ! nat tuple)
      else Inl IndexOutOfRange)"

text \<open>
  Modelled from the spec: \<open>updateProgressPointerFlag\<close> is declared in a header that is
  not among the sources. The spec: a progress cursor marks how many tuples have been
  consumed, and the layer is marked done when the cursor reaches the sequence length.
\<close>

definition updateProgressPointerFlag :: "CorblivarDie \<Rightarrow> CorblivarDie" where
  "updateProgressPointerFlag die =
     (let p = progress_pi die + 1
      in die\<lparr>progress_pi := p, done_flag := (done_flag die \<or> p = CBL_size (CBL die))\<rparr>)"

text \<open>
  The loop \<open>while (relevBlocksCount > relevBlocks.size())\<close>, which moves the top of the
  stack to the back of \<open>relevBlocks\<close>; \<open>top()\<close> of an empty stack is out of range.
\<close>

fun pop_relevant ::
  "nat \<Rightarrow> block_ref list \<Rightarrow> block_ref list \<Rightarrow> error + (block_ref list \<times> block_ref list)" where
  "pop_relevant relevBlocksCount relevBlocks stack =
     (if relevBlocksCount > length relevBlocks then
        (case stack of
           [] \<Rightarrow> Inl IndexOutOfRange
         | b # rest \<Rightarrow> pop_relevant relevBlocksCount (relevBlocks @ [b]) rest)
      else Inr (relevBlocks, stack))"

text \<open>
  The steps of a placement, each a loop or an assignment of the source. The coordinates
  of the blocks are read through the pointers, from the registry as it is when the source
  reads them.
\<close>

text \<open>
  The lower front \<open>y = relevBlocks[0]->bb.ll.y; y = min(y, relevBlocks[b]->bb.ll.y)\<close> for
  \<open>b\<close> from 1; \<open>relevBlocks[0]\<close> of an empty vector is out of range. The left front is
  the same on \<open>bb.ll.x\<close>.
\<close>

definition lower_front :: "block_store \<Rightarrow> block_ref list \<Rightarrow> error + real" where
  "lower_front st relevBlocks =
     (case relevBlocks of
        [] \<Rightarrow> Inl IndexOutOfRange
      | b0 # bs \<Rightarrow> Inr (fold (\<lambda>b y. min y (ll_y (bb (st b)))) bs (ll_y (bb (st b0)))))"

definition left_front :: "block_store \<Rightarrow> block_ref list \<Rightarrow> error + real" where
  "left_front st relevBlocks =
     (case relevBlocks of
        [] \<Rightarrow> Inl IndexOutOfRange
      | b0 # bs \<Rightarrow> Inr (fold (\<lambda>b x. min x (ll_x (bb (st b)))) bs (ll_x (bb (st b0)))))"

text \<open>
  \<open>cur_block->bb.ll.y = y; cur_block->bb.ur.y = cur_block->bb.h + y\<close>, and the same for x.
  The sum is a sum of doubles.
\<close>

definition update_y :: "block_store \<Rightarrow> block_ref \<Rightarrow> real \<Rightarrow> error + block_store" where
  "update_y st cur_block y =
     bindE (dadd (rect_h (bb (st cur_block))) y) (\<lambda>ur.
       Inr (st(cur_block := (st cur_block)\<lparr>bb := (bb (st cur_block))\<lparr>ll_y := y, ur_y := ur\<rparr>\<rparr>)))"

definition update_x :: "block_store \<Rightarrow> block_ref \<Rightarrow> real \<Rightarrow> error + block_store" where
  "update_x st cur_block x =
     bindE (dadd (rect_w (bb (st cur_block))) x) (\<lambda>ur.
       Inr (st(cur_block := (st cur_block)\<lparr>bb := (bb (st cur_block))\<lparr>ll_x := x, ur_x := ur\<rparr>\<rparr>)))"

text \<open>
  The right front: \<open>x = 0\<close>, then \<open>x = max(x, b->bb.ur.x)\<close> for the relevant blocks that
  intersect the current block in y-direction. The upper front is the same with the axes
  exchanged.
\<close>

definition right_front :: "rect_preds \<Rightarrow> block_store \<Rightarrow> block_ref \<Rightarrow> block_ref list \<Rightarrow> real" where
  "right_front P st cur_block relevBlocks =
     fold (\<lambda>b x. if rectsIntersectVertical P (bb (st cur_block)) (bb (st b))
                  then max x (ur_x (bb (st b))) else x) relevBlocks 0"

definition upper_front :: "rect_preds \<Rightarrow> block_store \<Rightarrow> block_ref \<Rightarrow> block_ref list \<Rightarrow> real" where
  "upper_front P st cur_block relevBlocks =
     fold (\<lambda>b y. if rectsIntersectHorizontal P (bb (st cur_block)) (bb (st b))
                  then max y (ur_y (bb (st b))) else y) relevBlocks 0"

text \<open>
  The flag \<open>add_to_stack\<close>: true, then false as soon as the current block is below (for a
  vertical tuple: left of) a relevant block, the intersection not being considered.
\<close>

definition none_above :: "rect_preds \<Rightarrow> block_store \<Rightarrow> block_ref \<Rightarrow> block_ref list \<Rightarrow> bool" where
  "none_above P st cur_block relevBlocks =
     fold (\<lambda>b add_to_stack. if rectA_below_rectB P (bb (st cur_block)) (bb (st b)) False
                             then False else add_to_stack) relevBlocks True"

definition none_right :: "rect_preds \<Rightarrow> block_store \<Rightarrow> block_ref \<Rightarrow> block_ref list \<Rightarrow> bool" where
  "none_right P st cur_block relevBlocks =
     fold (\<lambda>b add_to_stack. if rectA_leftOf_rectB P (bb (st cur_block)) (bb (st b)) False
                             then False else add_to_stack) relevBlocks True"

text \<open>
  The list \<open>blocks_add_to_stack\<close>: every relevant block that is not left of (for a
  vertical tuple: not below) the current block, the intersection being considered, is
  pushed to the front; then the current block is pushed to the front.
\<close>

definition blocks_not_left :: "rect_preds \<Rightarrow> block_store \<Rightarrow> block_ref \<Rightarrow> block_ref list \<Rightarrow> block_ref list" where
  "blocks_not_left P st cur_block relevBlocks =
     cur_block # fold (\<lambda>b blocks_add_to_stack.
                         if \<not> rectA_leftOf_rectB P (bb (st b)) (bb (st cur_block)) True
                         then b # blocks_add_to_stack else blocks_add_to_stack) relevBlocks []"

definition blocks_not_below :: "rect_preds \<Rightarrow> block_store \<Rightarrow> block_ref \<Rightarrow> block_ref list \<Rightarrow> block_ref list" where
  "blocks_not_below P st cur_block relevBlocks =
     cur_block # fold (\<lambda>b blocks_add_to_stack.
                         if \<not> rectA_below_rectB P (bb (st b)) (bb (st cur_block)) True
                         then b # blocks_add_to_stack else blocks_add_to_stack) relevBlocks []"

text \<open>\<open>for (Block const* b : blocks_add_to_stack) stack.push(b)\<close>.\<close>

definition push_all :: "block_ref list \<Rightarrow> block_ref list \<Rightarrow> block_ref list" where
  "push_all blocks_add_to_stack stack = fold (\<lambda>b acc. b # acc) blocks_add_to_stack stack"

text \<open>Horizontal placement. \<open>cur_juncts + 1\<close> is unsigned arithmetic.\<close>

definition place_horizontal ::
  "rect_preds \<Rightarrow> block_ref \<Rightarrow> 32 word \<Rightarrow> CorblivarDie \<Rightarrow> block_store
     \<Rightarrow> error + (CorblivarDie \<times> block_store)" where
  "place_horizontal P cur_block cur_juncts die st =
     bindE (pop_relevant (min (unat (cur_juncts + 1)) (length (Hi die))) [] (Hi die))
       (\<lambda>(relevBlocks, Hi1).
     bindE (if Hi1 = [] then Inr 0 else lower_front st relevBlocks) (\<lambda>y.
     bindE (update_y st cur_block y) (\<lambda>st1.
     bindE (update_x st1 cur_block (right_front P st1 cur_block relevBlocks)) (\<lambda>st2.
     let Vi1 = (if none_above P st2 cur_block relevBlocks then cur_block # Vi die else Vi die);
         Hi2 = push_all (blocks_not_left P st2 cur_block relevBlocks) Hi1
     in Inr (die\<lparr>Hi := Hi2, Vi := Vi1\<rparr>, st2)))))"

text \<open>Vertical placement: the same steps on the stack \<open>Vi\<close>, with the axes exchanged.\<close>

definition place_vertical ::
  "rect_preds \<Rightarrow> block_ref \<Rightarrow> 32 word \<Rightarrow> CorblivarDie \<Rightarrow> block_store
     \<Rightarrow> error + (CorblivarDie \<times> block_store)" where
  "place_vertical P cur_block cur_juncts die st =
     bindE (pop_relevant (min (unat (cur_juncts + 1)) (length (Vi die))) [] (Vi die))
       (\<lambda>(relevBlocks, Vi1).
     bindE (if Vi1 = [] then Inr 0 else left_front st relevBlocks) (\<lambda>x.
     bindE (update_x st cur_block x) (\<lambda>st1.
     bindE (update_y st1 cur_block (upper_front P st1 cur_block relevBlocks)) (\<lambda>st2.
     let Hi1 = (if none_right P st2 cur_block relevBlocks then cur_block # Hi die else Hi die);
         Vi2 = push_all (blocks_not_below P st2 cur_block relevBlocks) Vi1
     in Inr (die\<lparr>Hi := Hi1, Vi := Vi2\<rparr>, st2)))))"

text \<open>
  \<open>placeCurrentBlock\<close> returns the block placed, or no block (\<open>nullptr\<close>) for an empty
  die, together with the die and the block registry as the call leaves them. The output
  under \<open>dbgStack\<close> is not modelled.
\<close>

definition placeCurrentBlock ::
  "rect_preds \<Rightarrow> CorblivarDie \<Rightarrow> block_store
     \<Rightarrow> error + (block_ref option \<times> CorblivarDie \<times> block_store)" where
  "placeCurrentBlock P die st =
     (if CBL_empty (CBL die) then Inr (None, die\<lparr>done_flag := True\<rparr>, st)
      else
        bindE (getBlock die (int (progress_pi die))) (\<lambda>cur_block.
        bindE (getDirection die (int (progress_pi die))) (\<lambda>cur_dir.
        bindE (getJunctions die (int (progress_pi die))) (\<lambda>cur_juncts.
        if placed (st cur_block) then Inr (Some cur_block, die, st)
        else
          bindE (if cur_dir = HORIZONTAL then place_horizontal P cur_block cur_juncts die st
                 else place_vertical P cur_block cur_juncts die st)
            (\<lambda>(die', st').
          Inr (Some cur_block,
               updateProgressPointerFlag die',
               st'(cur_block := (st' cur_block)\<lparr>placed := True\<rparr>)))))))"

text \<open>
  The coordinates a placement can assign to the lower-left corner of the current block: 0
  and the coordinates of the popped blocks. \<open>sums_finite\<close>: the sum of the current block's
  width, and of its height, with each of them is a finite double.
\<close>

definition popped_coordinates :: "block_store \<Rightarrow> block_ref list \<Rightarrow> real list" where
  "popped_coordinates st popped =
     0 # concat (map (\<lambda>b. [ll_x (bb (st b)), ll_y (bb (st b)), ur_x (bb (st b)), ur_y (bb (st b))])
                  popped)"

definition sums_finite :: "block_store \<Rightarrow> block_ref \<Rightarrow> block_ref list \<Rightarrow> bool" where
  "sums_finite st cur_block popped =
     list_all (\<lambda>v. \<not> isl (dadd (rect_w (bb (st cur_block))) v)
                   \<and> \<not> isl (dadd (rect_h (bb (st cur_block))) v))
       (popped_coordinates st popped)"

text \<open>The tuple (block, direction, junction count) at an index of a die's current sequence.\<close>

definition tuple_at :: "core_state \<Rightarrow> int \<Rightarrow> int \<Rightarrow> block_ref \<times> Direction \<times> 32 word" where
  "tuple_at c die tuple =
     (let cbl = CBL (the_die c die) in (S cbl ! nat tuple, L cbl ! nat tuple, T cbl ! nat tuple))"

text \<open>
  The layer field of every block equals the id of the die whose current sequence
  contains it.
\<close>

definition layers_consistent :: "core_state \<Rightarrow> bool" where
  "layers_consistent c \<longleftrightarrow>
     (\<forall>die\<in>set (dies c). \<forall>b\<in>set (S (CBL die)). layer (blocks c b) = die_id die)"

text \<open>What one iteration of the loop of \<open>applyBestCBLs\<close> leaves in a die, in closed form.\<close>

definition best_applied :: "CorblivarDie \<Rightarrow> CorblivarDie" where
  "best_applied d = d\<lparr>CBL := (if CBL_empty (CBLbest d) then \<lparr>S = [], L = [], T = []\<rparr> else CBLbest d)\<rparr>"

section \<open>Example configurations\<close>

definition example_block :: "int \<Rightarrow> real \<Rightarrow> real \<Rightarrow> real \<Rightarrow> real \<Rightarrow> Block" where
  "example_block lay x0 y0 wd ht =
     \<lparr>layer = lay, placed = False,
      bb = \<lparr>ll_x = x0, ll_y = y0, ur_x = x0 + wd, ur_y = y0 + ht,
            rect_w = wd, rect_h = ht, rect_area = wd * ht\<rparr>,
      bb_backup = \<lparr>ll_x = 0, ll_y = 0, ur_x = 0, ur_y = 0, rect_w = 0, rect_h = 0, rect_area = 0\<rparr>,
      bb_best = \<lparr>ll_x = 0, ll_y = 0, ur_x = 0, ur_y = 0, rect_w = 0, rect_h = 0, rect_area = 0\<rparr>,
      AR_min = 1 / 2, AR_max = 2, soft = True, floorplacement = False, rotatable = True,
      power_density = 1\<rparr>"

definition example_die :: "int \<Rightarrow> block_ref list \<Rightarrow> Direction list \<Rightarrow> 32 word list \<Rightarrow> CorblivarDie" where
  "example_die i bs ds ts =
     \<lparr>die_id = i, CBL = \<lparr>S = bs, L = ds, T = ts\<rparr>,
      CBLbackup = \<lparr>S = [], L = [], T = []\<rparr>, CBLbest = \<lparr>S = [], L = [], T = []\<rparr>,
      progress_pi = 0, done_flag = False, Hi = [], Vi = []\<rparr>"

text \<open>Block 0 lies on die 0, every other block on die 1.\<close>

definition example_store :: block_store where
  "example_store b = (if b = 0 then example_block 0 0 0 10 4 else example_block 1 0 0 5 4)"

text \<open>Two dies, no best solution stored.\<close>

definition example_core :: core_state where
  "example_core =
     \<lparr>dies = [example_die 0 [0] [HORIZONTAL] [0],
              example_die 1 [1, 2] [VERTICAL, HORIZONTAL] [3, 1]],
      blocks = example_store\<rparr>"

text \<open>The same two dies, a best solution stored for die 0 only.\<close>

definition example_core_best :: core_state where
  "example_core_best =
     \<lparr>dies = [(example_die 0 [0] [HORIZONTAL] [0])\<lparr>CBLbest := \<lparr>S = [0], L = [VERTICAL], T = [2]\<rparr>\<rparr>,
              example_die 1 [1, 2] [VERTICAL, HORIZONTAL] [3, 1]],
      blocks = example_store\<rparr>"

text \<open>One die holding three tuples.\<close>

definition example_core_three :: core_state where
  "example_core_three =
     \<lparr>dies = [example_die 0 [0, 1, 2] [HORIZONTAL, VERTICAL, HORIZONTAL] [0, 1, 2]],
      blocks = (\<lambda>b. example_block 0 0 0 5 4)\<rparr>"



text \<open>
  The third tuple of a die about to be placed: block 0 (width 10, height 4) lies at the
  origin, block 1 (width 10, height 4) on top of it; the stack \<open>Hi\<close> holds block 1 above
  block 0, the stack \<open>Vi\<close> block 1. Block 2 (width 5, height 2) is the current block, a
  HORIZONTAL tuple of junction count 1. This is the state the first two placements leave.
\<close>

definition example_die_third :: CorblivarDie where
  "example_die_third =
     (example_die 0 [0, 1, 2] [HORIZONTAL, VERTICAL, HORIZONTAL] [0, 0, 1])
       \<lparr>progress_pi := 2, Hi := [1, 0], Vi := [1]\<rparr>"

definition example_store_third :: block_store where
  "example_store_third b =
     (if b = 0 then (example_block 0 0 0 10 4)\<lparr>placed := True\<rparr>
      else if b = 1 then (example_block 0 0 4 10 4)\<lparr>placed := True\<rparr>
      else example_block 0 0 0 5 2)"

text \<open>
  The doubles that the decimal literals 0.1, 0.6 and 1.6 denote, and the double of
  \<open>1.0 / 3.0\<close>.
\<close>

definition double_0_1 :: real where
  "double_0_1 = 3602879701896397 / 2 ^ 55"

definition double_0_6 :: real where
  "double_0_6 = 5404319552844595 / 2 ^ 53"

definition double_1_6 :: real where
  "double_1_6 = 3602879701896397 / 2 ^ 51"

definition double_third :: real where
  "double_third = 6004799503160661 / 2 ^ 54"

text \<open>
  A tuple whose placement depends on the rounding of a sum. The stack \<open>Hi\<close> holds block 1
  above block 0 above block 3. Block 1 (width 10) has its lower edge at the double 0.6,
  block 0 (width 8) at 0.5. Block 2, of width 5 and of the double 0.1 as height, is the
  current block, a HORIZONTAL tuple of junction count 1.
\<close>

definition example_die_rounding :: CorblivarDie where
  "example_die_rounding =
     (example_die 0 [3, 0, 1, 2] [HORIZONTAL, HORIZONTAL, VERTICAL, HORIZONTAL] [0, 0, 0, 1])
       \<lparr>progress_pi := 3, Hi := [1, 0, 3], Vi := [1]\<rparr>"

definition example_store_rounding :: block_store where
  "example_store_rounding b =
     (if b = 0 then
        (example_block 0 0 (1 / 2) 8 (1 / 2))\<lparr>placed := True\<rparr>
      else if b = 1 then
        (example_block 0 0 0 10 1)
          \<lparr>placed := True,
           bb := \<lparr>ll_x = 0, ll_y = double_0_6, ur_x = 10, ur_y = double_1_6,
                   rect_w = 10, rect_h = 1, rect_area = 10\<rparr>\<rparr>
      else if b = 2 then
        (example_block 0 0 0 5 1)
          \<lparr>bb := \<lparr>ll_x = 0, ll_y = 0, ur_x = 5, ur_y = double_0_1,
                   rect_w = 5, rect_h = double_0_1, rect_area = 1 / 2\<rparr>\<rparr>
      else (example_block 0 0 0 8 (1 / 2))\<lparr>placed := True\<rparr>)"

text \<open>A block whose upper bound of the aspect ratio is the double 1.0 / 3.0.\<close>

definition example_block_third :: Block where
  "example_block_third = (example_block 0 1 2 10 4)\<lparr>AR_min := 0, AR_max := double_third\<rparr>"

text \<open>The two dies of \<open>example_core\<close>, block 0 of the lower die having the lower power density.\<close>

definition example_core_power :: core_state where
  "example_core_power =
     example_core\<lparr>blocks := example_store(0 := (example_block 0 0 0 10 4)\<lparr>power_density := 1 / 2\<rparr>)\<rparr>"

text \<open>Operator parameters with both policies enabled, and a random tape.\<close>

definition example_ops :: LayoutOperations where
  "example_ops =
     \<lparr>params = \<lparr>param_layers = 2, param_power_aware_block_handling = True,
                param_floorplacement = True\<rparr>,
      last_op_die1 = -1, last_op_die2 = -1, last_op_tuple1 = -1, last_op_tuple2 = -1,
      last_op_juncts = -1\<rparr>"

definition example_rnd :: rand_source where
  "example_rnd = \<lparr>ints = [0, 0], bools = [False]\<rparr>"

section \<open>Properties\<close>

subsection \<open>Reshaping a block\<close>

text \<open>
  Values of the rounding: the doubles of 0.1, 0.6, 1.6 and 1.0 / 3.0; the sum of the
  doubles 0.1 and 0.5 is the double 0.6, which the exact sum of the two exceeds; a tie
  goes to the even neighbour; a division by zero gives no finite double.
\<close>

lemma double_rounding_examples:
  "round_double (1 / 10) = double_0_1"
  "round_double (6 / 10) = double_0_6"
  "round_double (16 / 10) = double_1_6"
  "round_double (1 / 3) = double_third"
  "dadd double_0_6 1 = Inr double_1_6"
  "dadd double_0_1 (1 / 2) = Inr double_0_6"
  "double_0_6 < double_0_1 + 1 / 2"
  "to_double (2 ^ 53 + 1) = Some (2 ^ 53)"
  "to_double (2 ^ 53 + 3) = Some (2 ^ 53 + 4)"
  "ddiv 1 0 = None"
  by code_simp+

lemma double_max_eq: "double_max = (2 ^ 53 - 1) * 2 ^ 971"
  by (simp add: double_max_def)

text \<open>A sum beyond the largest double is not a finite double.\<close>

lemma dadd_overflow_example: "dadd double_max double_max = Inl NotFinite"
  by (simp add: dadd_def to_double_def round_double_def double_exponent_def exponent_up.simps
      pow2_def round_half_even_def double_max_def Let_def)

lemma AR_allowed_iff:
  "AR_allowed b AR \<longleftrightarrow> (\<exists>ar. AR = Some ar \<and> AR_min b \<le> ar \<and> ar \<le> AR_max b)"
  by (cases AR) (simp_all add: AR_allowed_def)

lemma reshaped_bb:
  "b\<lparr>bb := (bb b)\<lparr>ur_x := ux, ur_y := uy, rect_w := width, rect_h := height\<rparr>\<rparr> =
   b\<lparr>bb := \<lparr>ll_x = ll_x (bb b), ll_y = ll_y (bb b), ur_x = ux, ur_y = uy,
            rect_w = width, rect_h = height, rect_area = rect_area (bb b)\<rparr>\<rparr>"
  by (cases "bb b") simp

text \<open>
  C10. \<open>shapeByWidthHeight\<close> returns true exactly when the block is rotatable and
  the quotient width / height, as the doubles give it, is a finite double within the
  bounds \<open>AR.min\<close> and \<open>AR.max\<close>. When it returns true the lower-left corner is kept, the
  upper-right corner is the lower-left corner plus the new dimensions, as sums of doubles,
  and width and height are the new ones; when it returns false the block is unchanged.
  The function does return: false whenever the block is not rotatable or the quotient not
  within the bounds, and true otherwise, the two sums being finite doubles.
\<close>

theorem shapeByWidthHeight_applies_iff_allowed:
  "(shapeByWidthHeight b width height = Inr (ret, b') \<longrightarrow>
      (ret \<longleftrightarrow> rotatable b
         \<and> (\<exists>ar. ddiv width height = Some ar \<and> AR_min b \<le> ar \<and> ar \<le> AR_max b))
    \<and> (ret \<longrightarrow> dadd (ll_x (bb b)) width = Inr (ur_x (bb b'))
             \<and> dadd (ll_y (bb b)) height = Inr (ur_y (bb b'))
             \<and> b' = b\<lparr>bb := \<lparr>ll_x = ll_x (bb b), ll_y = ll_y (bb b),
                              ur_x = ur_x (bb b'), ur_y = ur_y (bb b'),
                              rect_w = width, rect_h = height, rect_area = rect_area (bb b)\<rparr>\<rparr>)
    \<and> (\<not> ret \<longrightarrow> b' = b))
   \<and> (\<not> (rotatable b
          \<and> (\<exists>ar. ddiv width height = Some ar \<and> AR_min b \<le> ar \<and> ar \<le> AR_max b)) \<longrightarrow>
        shapeByWidthHeight b width height = Inr (False, b))
   \<and> (rotatable b
        \<and> (\<exists>ar. ddiv width height = Some ar \<and> AR_min b \<le> ar \<and> ar \<le> AR_max b)
        \<and> dadd (ll_x (bb b)) width = Inr ux \<and> dadd (ll_y (bb b)) height = Inr uy \<longrightarrow>
        shapeByWidthHeight b width height =
          Inr (True, b\<lparr>bb := \<lparr>ll_x = ll_x (bb b), ll_y = ll_y (bb b), ur_x = ux, ur_y = uy,
                               rect_w = width, rect_h = height, rect_area = rect_area (bb b)\<rparr>\<rparr>))"
proof -
  let ?ok = "rotatable b
    \<and> (\<exists>ar. ddiv width height = Some ar \<and> AR_min b \<le> ar \<and> ar \<le> AR_max b)"
  have no: "shapeByWidthHeight b width height = Inr (False, b)" if "\<not> ?ok"
    using that by (auto simp add: shapeByWidthHeight_def AR_allowed_iff)
  have yes: "shapeByWidthHeight b width height =
      Inr (True, b\<lparr>bb := \<lparr>ll_x = ll_x (bb b), ll_y = ll_y (bb b), ur_x = vx, ur_y = vy,
                           rect_w = width, rect_h = height, rect_area = rect_area (bb b)\<rparr>\<rparr>)"
    if "?ok" "dadd (ll_x (bb b)) width = Inr vx" "dadd (ll_y (bb b)) height = Inr vy" for vx vy
    using that by (auto simp add: shapeByWidthHeight_def AR_allowed_iff reshaped_bb)
  have run: "(ret \<longleftrightarrow> ?ok)
    \<and> (ret \<longrightarrow> dadd (ll_x (bb b)) width = Inr (ur_x (bb b'))
             \<and> dadd (ll_y (bb b)) height = Inr (ur_y (bb b'))
             \<and> b' = b\<lparr>bb := \<lparr>ll_x = ll_x (bb b), ll_y = ll_y (bb b),
                              ur_x = ur_x (bb b'), ur_y = ur_y (bb b'),
                              rect_w = width, rect_h = height, rect_area = rect_area (bb b)\<rparr>\<rparr>)
    \<and> (\<not> ret \<longrightarrow> b' = b)"
    if r: "shapeByWidthHeight b width height = Inr (ret, b')"
  proof (cases "?ok")
    case False
    with no r show ?thesis
      by simp
  next
    case True
    from r True obtain vx vy where
      v: "dadd (ll_x (bb b)) width = Inr vx" "dadd (ll_y (bb b)) height = Inr vy"
      by (auto simp add: shapeByWidthHeight_def AR_allowed_iff split: sum.splits)
    from yes [OF True v] r have
      "ret" "b' = b\<lparr>bb := \<lparr>ll_x = ll_x (bb b), ll_y = ll_y (bb b), ur_x = vx, ur_y = vy,
                           rect_w = width, rect_h = height, rect_area = rect_area (bb b)\<rparr>\<rparr>"
      by simp_all
    with True v show ?thesis
      by simp
  qed
  from no yes run show ?thesis
    by blast
qed

theorem shapeByWidthHeight_applies_iff_allowed_witness:
  "shapeByWidthHeight (example_block 0 1 2 10 4) 8 5 =
     Inr (True, (example_block 0 1 2 10 4)
       \<lparr>bb := \<lparr>ll_x = 1, ll_y = 2, ur_x = 9, ur_y = 7, rect_w = 8, rect_h = 5, rect_area = 40\<rparr>\<rparr>)
   \<and> shapeByWidthHeight (example_block 0 1 2 10 4) 8 2 = Inr (False, example_block 0 1 2 10 4)
   \<and> ddiv 1 3 = Some (AR_max example_block_third)
   \<and> AR_max example_block_third < 1 / 3
   \<and> shapeByWidthHeight example_block_third 1 3 =
       Inr (True, example_block_third
         \<lparr>bb := \<lparr>ll_x = 1, ll_y = 2, ur_x = 2, ur_y = 5, rect_w = 1, rect_h = 3, rect_area = 40\<rparr>\<rparr>)"
proof -
  have q1: "AR_allowed (example_block 0 1 2 10 4) (ddiv 8 5)"
    and q2: "\<not> AR_allowed (example_block 0 1 2 10 4) (ddiv 8 2)"
    and q3: "AR_allowed example_block_third (ddiv 1 3)"
    and q4: "ddiv 1 3 = Some (AR_max example_block_third)"
    and q5: "AR_max example_block_third < 1 / 3"
    by code_simp+
  have s: "dadd 1 8 = Inr 9" "dadd 2 5 = Inr 7" "dadd 1 1 = Inr 2" "dadd 2 3 = Inr 5"
    by code_simp+
  have e: "rotatable (example_block 0 1 2 10 4)" "rotatable example_block_third"
    "ll_x (bb (example_block 0 1 2 10 4)) = 1" "ll_y (bb (example_block 0 1 2 10 4)) = 2"
    "rect_area (bb (example_block 0 1 2 10 4)) = 40"
    "ll_x (bb example_block_third) = 1" "ll_y (bb example_block_third) = 2"
    "rect_area (bb example_block_third) = 40"
    by (simp_all add: example_block_def example_block_third_def)
  have "shapeByWidthHeight (example_block 0 1 2 10 4) 8 5 =
     Inr (True, (example_block 0 1 2 10 4)
       \<lparr>bb := \<lparr>ll_x = 1, ll_y = 2, ur_x = 9, ur_y = 7, rect_w = 8, rect_h = 5, rect_area = 40\<rparr>\<rparr>)"
    using shapeByWidthHeight_applies_iff_allowed [of "example_block 0 1 2 10 4" 8 5 _ _ 9 7]
      q1 s e by (simp add: AR_allowed_iff)
  moreover have "shapeByWidthHeight (example_block 0 1 2 10 4) 8 2 = Inr (False, example_block 0 1 2 10 4)"
    using shapeByWidthHeight_applies_iff_allowed [of "example_block 0 1 2 10 4" 8 2]
      q2 by (simp add: AR_allowed_iff)
  moreover have "shapeByWidthHeight example_block_third 1 3 =
       Inr (True, example_block_third
         \<lparr>bb := \<lparr>ll_x = 1, ll_y = 2, ur_x = 2, ur_y = 5, rect_w = 1, rect_h = 3, rect_area = 40\<rparr>\<rparr>)"
    using shapeByWidthHeight_applies_iff_allowed [of example_block_third 1 3 _ _ 2 5]
      q3 s e by (simp add: AR_allowed_iff)
  ultimately show ?thesis
    using q4 q5 by simp
qed

subsection \<open>Backup and restore\<close>

lemma copy_L_eq: "copy_L ls cbl = cbl\<lparr>L := L cbl @ ls\<rparr>"
  unfolding copy_L_def by (induction ls arbitrary: cbl) simp_all

lemma copy_T_eq: "copy_T ts cbl = cbl\<lparr>T := T cbl @ ts\<rparr>"
  unfolding copy_T_def by (induction ts arbitrary: cbl) simp_all

lemma backup_blocks_eq:
  "backup_blocks bs bk st =
     (bk\<lparr>S := S bk @ bs\<rparr>,
      \<lambda>b. if b \<in> set bs then (st b)\<lparr>bb_backup := bb (st b)\<rparr> else st b)"
  by (induction bs arbitrary: bk st) (auto simp add: fun_eq_iff)

lemma backup_die_eq:
  "backup_die die st =
     (die\<lparr>CBLbackup := CBL die\<rparr>,
      \<lambda>b. if b \<in> set (S (CBL die)) then (st b)\<lparr>bb_backup := bb (st b)\<rparr> else st b)"
  by (simp add: backup_die_def backup_blocks_eq copy_L_eq copy_T_eq CBL_clear_def)

lemma backup_dies_eq:
  "backup_dies ds st =
     (map (\<lambda>d. d\<lparr>CBLbackup := CBL d\<rparr>) ds,
      \<lambda>b. if b \<in> (\<Union>d\<in>set ds. set (S (CBL d))) then (st b)\<lparr>bb_backup := bb (st b)\<rparr> else st b)"
  by (induction ds arbitrary: st) (auto simp add: backup_die_eq fun_eq_iff)

lemma restore_blocks_eq:
  "restore_blocks i bs cur st =
     (cur\<lparr>S := S cur @ bs\<rparr>,
      \<lambda>b. if b \<in> set bs then (st b)\<lparr>bb := bb_backup (st b), layer := i\<rparr> else st b)"
  by (induction bs arbitrary: cur st) (auto simp add: fun_eq_iff)

lemma restore_die_eq:
  "restore_die die st =
     (die\<lparr>CBL := CBLbackup die\<rparr>,
      \<lambda>b. if b \<in> set (S (CBLbackup die)) then (st b)\<lparr>bb := bb_backup (st b), layer := die_id die\<rparr> else st b)"
  by (simp add: restore_die_def restore_blocks_eq copy_L_eq copy_T_eq CBL_clear_def)

lemma layer_update_same: "layer r = i \<Longrightarrow> r\<lparr>bb := v, layer := i\<rparr> = r\<lparr>bb := v\<rparr>"
  by (cases r) simp

lemma restore_dies_eq:
  "\<forall>d\<in>set ds. \<forall>b\<in>set (S (CBLbackup d)). layer (st b) = die_id d \<Longrightarrow>
   restore_dies ds st =
     (map (\<lambda>d. d\<lparr>CBL := CBLbackup d\<rparr>) ds,
      \<lambda>b. if b \<in> (\<Union>d\<in>set ds. set (S (CBLbackup d))) then (st b)\<lparr>bb := bb_backup (st b)\<rparr> else st b)"
proof (induction ds arbitrary: st)
  case Nil
  then show ?case by simp
next
  case (Cons d ds)
  define st1 where
    "st1 = (\<lambda>b. if b \<in> set (S (CBLbackup d)) then (st b)\<lparr>bb := bb_backup (st b)\<rparr> else st b)"
  have rd: "restore_die d st = (d\<lparr>CBL := CBLbackup d\<rparr>, st1)"
    unfolding restore_die_eq st1_def using Cons.prems
    by (auto simp add: fun_eq_iff layer_update_same)
  have inv1: "\<forall>d'\<in>set ds. \<forall>b\<in>set (S (CBLbackup d')). layer (st1 b) = die_id d'"
  proof (intro ballI)
    fix d' b
    assume "d' \<in> set ds" and "b \<in> set (S (CBLbackup d'))"
    then have "layer (st b) = die_id d'"
      using Cons.prems by simp
    moreover have "layer (st1 b) = layer (st b)"
      by (simp add: st1_def)
    ultimately show "layer (st1 b) = die_id d'"
      by (simp only:)
  qed
  have fin: "(\<lambda>b. if b \<in> (\<Union>d\<in>set ds. set (S (CBLbackup d)))
                  then (st1 b)\<lparr>bb := bb_backup (st1 b)\<rparr> else st1 b) =
             (\<lambda>b. if b \<in> (\<Union>d\<in>set (d # ds). set (S (CBLbackup d)))
                  then (st b)\<lparr>bb := bb_backup (st b)\<rparr> else st b)"
    by (auto simp add: st1_def fun_eq_iff)
  have "restore_dies (d # ds) st =
          (d\<lparr>CBL := CBLbackup d\<rparr> # map (\<lambda>d. d\<lparr>CBL := CBLbackup d\<rparr>) ds,
           \<lambda>b. if b \<in> (\<Union>d\<in>set ds. set (S (CBLbackup d)))
               then (st1 b)\<lparr>bb := bb_backup (st1 b)\<rparr> else st1 b)"
    by (simp only: restore_dies.simps rd Cons.IH [OF inv1] Let_def prod.case)
  then show ?case
    unfolding fin by simp
qed

text \<open>
  C3. Snapshot round-trip: in a core state in which the layer field of every block equals
  the id of the die whose current sequence contains it, \<open>backupCBLs\<close> immediately followed
  by \<open>restoreCBLs\<close> leaves the three lists of every die's current sequence and the
  rectangle of every block as they were before the backup; the layer fields are as before
  as well.
\<close>

theorem backup_restore_roundtrip:
  assumes "layers_consistent c"
  shows "map CBL (dies (restoreCBLs (backupCBLs c))) = map CBL (dies c)
       \<and> (\<forall>b. bb (blocks (restoreCBLs (backupCBLs c)) b) = bb (blocks c b)
              \<and> layer (blocks (restoreCBLs (backupCBLs c)) b) = layer (blocks c b))"
proof -
  let ?st1 = "\<lambda>b. if b \<in> (\<Union>d\<in>set (dies c). set (S (CBL d))) then (blocks c b)\<lparr>bb_backup := bb (blocks c b)\<rparr> else blocks c b"
  let ?ds1 = "map (\<lambda>d. d\<lparr>CBLbackup := CBL d\<rparr>) (dies c)"
  have b: "backupCBLs c = c\<lparr>dies := ?ds1, blocks := ?st1\<rparr>"
    by (simp add: backupCBLs_def backup_dies_eq)
  have inv: "\<forall>d\<in>set ?ds1. \<forall>b\<in>set (S (CBLbackup d)). layer (?st1 b) = die_id d"
    using assms by (auto simp add: layers_consistent_def)
  have r: "restoreCBLs (c\<lparr>dies := ?ds1, blocks := ?st1\<rparr>) =
      c\<lparr>dies := map (\<lambda>d. d\<lparr>CBL := CBLbackup d\<rparr>) ?ds1,
        blocks := \<lambda>b. if b \<in> (\<Union>d\<in>set ?ds1. set (S (CBLbackup d)))
                      then (?st1 b)\<lparr>bb := bb_backup (?st1 b)\<rparr> else ?st1 b\<rparr>"
    unfolding restoreCBLs_def using restore_dies_eq [OF inv] by simp
  show ?thesis
    unfolding b r by (simp add: comp_def)
qed

theorem backup_restore_roundtrip_witness:
  "layers_consistent example_core
   \<and> map CBL (dies (restoreCBLs (backupCBLs example_core))) = map CBL (dies example_core)
   \<and> (\<forall>b. bb (blocks (restoreCBLs (backupCBLs example_core)) b) = bb (blocks example_core b)
          \<and> layer (blocks (restoreCBLs (backupCBLs example_core)) b) = layer (blocks example_core b))"
proof -
  have h: "layers_consistent example_core"
    by (simp add: layers_consistent_def example_core_def example_die_def example_store_def
        example_block_def)
  show ?thesis
    using h backup_restore_roundtrip [OF h] by (simp only: simp_thms)
qed

subsection \<open>Applying the best solution\<close>

lemma apply_best_blocks_fst:
  "fst (apply_best_blocks i bs cur st) = cur\<lparr>S := S cur @ bs\<rparr>"
  by (induction bs arbitrary: cur st) simp_all

lemma apply_best_die_fst:
  "fst (apply_best_die d st n) = best_applied d"
  by (simp add: apply_best_die_def best_applied_def CBL_clear_def copy_L_eq copy_T_eq
      split_beta apply_best_blocks_fst)

lemma apply_best_die_count:
  "snd (snd (apply_best_die d st n)) = (if CBL_empty (CBLbest d) then n + 1 else n)"
  by (simp add: apply_best_die_def split_beta Let_def)

lemma apply_best_dies_fst:
  "fst (apply_best_dies ds st n) = map best_applied ds"
proof (induction ds arbitrary: st n)
  case Nil
  then show ?case by simp
next
  case (Cons d ds)
  show ?case
    using Cons.IH apply_best_die_fst [of d st n]
    by (simp add: split_beta)
qed

lemma apply_best_dies_count:
  "snd (snd (apply_best_dies ds st n)) =
     n + of_nat (length (filter (\<lambda>d. CBL_empty (CBLbest d)) ds))"
proof (induction ds arbitrary: st n)
  case Nil
  then show ?case by simp
next
  case (Cons d ds)
  show ?case
    using Cons.IH apply_best_die_count [of d st n]
    by (simp add: split_beta)
qed

lemma length_filter_eq_length_iff:
  "length (filter P xs) = length xs \<longleftrightarrow> (\<forall>x\<in>set xs. P x)"
  using sum_length_filter_compl [of P xs]
  by (auto simp add: filter_empty_conv)

lemma apply_best_returns_iff:
  assumes "length (dies c) < 2 ^ 32"
  shows "fst (applyBestCBLs c) \<longleftrightarrow> \<not> (\<forall>die\<in>set (dies c). CBL_empty (CBLbest die))"
proof -
  let ?k = "length (filter (\<lambda>d. CBL_empty (CBLbest d)) (dies c))"
  have "?k \<le> length (dies c)"
    by (rule length_filter_le)
  from this assms have "?k < 2 ^ 32"
    by (rule le_less_trans)
  then have u: "unat (of_nat ?k :: 32 word) = ?k"
    by (simp add: unat_of_nat)
  have "fst (applyBestCBLs c) \<longleftrightarrow>
        unat (snd (snd (apply_best_dies (dies c) (blocks c) 0))) \<noteq>
        length (fst (apply_best_dies (dies c) (blocks c) 0))"
    by (simp add: applyBestCBLs_def split_beta)
  then have "fst (applyBestCBLs c) \<longleftrightarrow> ?k \<noteq> length (dies c)"
    by (simp add: apply_best_dies_fst apply_best_dies_count u)
  then show ?thesis
    by (simp add: length_filter_eq_length_iff)
qed


text \<open>
  C4. \<open>applyBestCBLs\<close> returns false if and only if the best snapshot of every die is
  empty. The counter of empty dies is an unsigned 32-bit integer; the number of dies,
  constructed from an int, is below \<open>2 ^ 32\<close>.
\<close>

theorem applyBestCBLs_false_iff_all_best_empty:
  assumes "length (dies c) < 2 ^ 32"
  shows "\<not> fst (applyBestCBLs c) \<longleftrightarrow> (\<forall>die\<in>set (dies c). CBL_empty (CBLbest die))"
  using apply_best_returns_iff [OF assms] by simp

theorem applyBestCBLs_false_iff_all_best_empty_witness:
  "length (dies example_core) < 2 ^ 32
   \<and> list_all (\<lambda>die. CBL_empty (CBLbest die)) (dies example_core)
   \<and> \<not> fst (applyBestCBLs example_core)"
proof -
  have h: "length (dies example_core) < 2 ^ 32"
    by (simp add: example_core_def)
  have e: "list_all (\<lambda>die. CBL_empty (CBLbest die)) (dies example_core)"
    by (simp add: example_core_def example_die_def CBL_empty_def)
  show ?thesis
    using h e applyBestCBLs_false_iff_all_best_empty [OF h]
    by (simp only: list_all_iff simp_thms)
qed

text \<open>
  C9. \<open>applyBestCBLs\<close> clears the current sequence of every die before it looks at the
  die's best snapshot: after a call that returns true, every die whose best snapshot is
  empty has an empty current sequence, whatever it held before the call.
\<close>

theorem applyBestCBLs_clears_dies_without_best:
  assumes "fst (applyBestCBLs c)"
  shows "length (dies (snd (applyBestCBLs c))) = length (dies c)
       \<and> (\<forall>i<length (dies c). CBL_empty (CBLbest (dies c ! i)) \<longrightarrow>
             CBL (dies (snd (applyBestCBLs c)) ! i) = \<lparr>S = [], L = [], T = []\<rparr>)"
proof -
  have "dies (snd (applyBestCBLs c)) = fst (apply_best_dies (dies c) (blocks c) 0)"
    by (simp add: applyBestCBLs_def split_beta)
  then have "dies (snd (applyBestCBLs c)) = map best_applied (dies c)"
    by (simp add: apply_best_dies_fst)
  then show ?thesis
    by (simp add: best_applied_def)
qed

theorem applyBestCBLs_clears_dies_without_best_witness:
  "fst (applyBestCBLs example_core_best)
   \<and> CBL_empty (CBLbest (dies example_core_best ! 1))
   \<and> S (CBL (dies example_core_best ! 1)) = [1, 2]
   \<and> CBL (dies (snd (applyBestCBLs example_core_best)) ! 1) = \<lparr>S = [], L = [], T = []\<rparr>"
proof -
  have "\<not> (\<forall>die\<in>set (dies example_core_best). CBL_empty (CBLbest die))"
    by (simp add: example_core_best_def example_die_def CBL_empty_def)
  moreover have "length (dies example_core_best) < 2 ^ 32"
    by (simp add: example_core_best_def)
  ultimately have h: "fst (applyBestCBLs example_core_best)"
    using apply_best_returns_iff by blast
  have e: "CBL_empty (CBLbest (dies example_core_best ! 1))"
    by (simp add: example_core_best_def example_die_def CBL_empty_def)
  have l: "(1::nat) < length (dies example_core_best)"
    by (simp add: example_core_best_def)
  have s: "S (CBL (dies example_core_best ! 1)) = [1, 2]"
    by (simp add: example_core_best_def example_die_def)
  show ?thesis
    using h e l s applyBestCBLs_clears_dies_without_best [OF h] by blast
qed


subsection \<open>Relocating a tuple within a die\<close>

lemma length_vec_insert: "length (vec_insert pos v xs) = Suc (length xs)"
  by (simp add: vec_insert_def)

lemma length_vec_erase: "pos < length xs \<Longrightarrow> length (vec_erase pos xs) = length xs - 1"
  by (simp add: vec_erase_def)

lemma move_within_back:
  assumes "t2 < t1" and "t1 < length xs"
  shows "vec_erase (Suc t1) (vec_insert t2 (xs ! t1) xs) =
           take t2 xs @ xs ! t1 # drop t2 (take t1 xs) @ drop (Suc t1) xs"
proof -
  have "take (Suc t1) (take t2 xs @ xs ! t1 # drop t2 xs) = take t2 xs @ xs ! t1 # take (t1 - t2) (drop t2 xs)"
    using assms by (simp add: min_def Suc_diff_le)
  moreover have "drop (Suc (Suc t1)) (take t2 xs @ xs ! t1 # drop t2 xs) = drop (Suc t1) xs"
    using assms by (simp add: min_def Suc_diff_le)
  moreover have "take (t1 - t2) (drop t2 xs) = drop t2 (take t1 xs)"
    using assms by (simp add: drop_take)
  ultimately show ?thesis
    by (simp add: vec_erase_def vec_insert_def)
qed

lemma move_within_forward:
  assumes "t1 < t2" and "t2 \<le> length xs"
  shows "vec_erase t1 (vec_insert t2 (xs ! t1) xs) =
           take t1 xs @ drop (Suc t1) (take t2 xs) @ xs ! t1 # drop t2 xs"
  using assms by (simp add: vec_erase_def vec_insert_def min_def)

lemma move_within_back_nth:
  assumes "t2 < t1" and "t1 < length xs"
  shows "vec_erase (Suc t1) (vec_insert t2 (xs ! t1) xs) ! t2 = xs ! t1"
  using assms by (simp add: move_within_back nth_append)

lemma move_within_forward_nth:
  assumes "t1 < t2" and "t2 \<le> length xs"
  shows "vec_erase t1 (vec_insert t2 (xs ! t1) xs) ! (t2 - 1) = xs ! t1"
proof -
  have "length (take t1 xs @ drop (Suc t1) (take t2 xs)) = t2 - 1"
    using assms by simp
  then show ?thesis
    unfolding move_within_forward [OF assms] append_assoc [symmetric]
    by (metis nth_append_length)
qed

lemma move_within_length:
  assumes "t1 < length xs" and "t2 \<le> length xs"
  shows "length (vec_erase (if t2 < t1 then Suc t1 else t1) (vec_insert t2 (xs ! t1) xs)) = length xs"
  using assms by (simp add: length_vec_erase length_vec_insert)

text \<open>
  Where a relocation within one die puts the tuple: the number of tuples is unchanged;
  the tuple lands at the destination index when the destination is before the source, and
  one position before the destination index when the destination is after the source.
\<close>

lemma moveTuples_same_die_position:
  assumes "die_in_range c die"
    and "tuple_in_range (CBL (the_die c die)) tuple1"
    and "tuple_in_range (CBL (the_die c die)) tuple2"
    and "tuple1 \<noteq> tuple2"
  shows "\<not> isl (moveTuples c die die tuple1 tuple2)
       \<and> length (S (CBL (the_die (projr (moveTuples c die die tuple1 tuple2)) die))) = length (S (CBL (the_die c die)))
       \<and> length (L (CBL (the_die (projr (moveTuples c die die tuple1 tuple2)) die))) = length (L (CBL (the_die c die)))
       \<and> length (T (CBL (the_die (projr (moveTuples c die die tuple1 tuple2)) die))) = length (T (CBL (the_die c die)))
       \<and> tuple_at (projr (moveTuples c die die tuple1 tuple2)) die
            (if tuple2 < tuple1 then tuple2 else tuple2 - 1) = tuple_at c die tuple1"
proof -
  obtain d where d: "die = int d" "d < length (dies c)"
    using assms(1) by (auto simp add: die_in_range_def elim: nonneg_int_cases)
  obtain t1 where t1: "tuple1 = int t1"
    using assms(2) by (auto simp add: tuple_in_range_def elim: nonneg_int_cases)
  obtain t2 where t2: "tuple2 = int t2"
    using assms(3) by (auto simp add: tuple_in_range_def elim: nonneg_int_cases)
  let ?cbl = "CBL (dies c ! d)"
  have r1: "t1 < length (S ?cbl)" "t1 < length (L ?cbl)" "t1 < length (T ?cbl)"
    using assms(2) by (simp_all add: tuple_in_range_def the_die_def d t1)
  have r2: "t2 < length (S ?cbl)" "t2 < length (L ?cbl)" "t2 < length (T ?cbl)"
    using assms(3) by (simp_all add: tuple_in_range_def the_die_def d t2)
  show ?thesis
  proof (cases "t2 < t1")
    case True
    then show ?thesis
      using d r1 r2
      by (simp add: moveTuples_def tuple_in_range_def die_in_range_def the_die_def tuple_at_def
          t1 t2 Let_def length_vec_insert length_vec_erase move_within_back_nth)
  next
    case False
    with assms(4) have lt: "t1 < t2"
      by (simp add: t1 t2)
    have m: "nat (int t2 - 1) = t2 - 1"
      by simp
    show ?thesis
      using d r1 r2 lt
      by (simp add: moveTuples_def tuple_in_range_def die_in_range_def the_die_def tuple_at_def
          t1 t2 Let_def length_vec_insert length_vec_erase move_within_forward_nth m
          del: One_nat_def)
  qed
qed

text \<open>
  \<open>performOpMoveOrSwapBlocks\<close> reverts a move by \<open>moveTuples(die2, die1, tuple2, tuple1)\<close>,
  which relies on the tuple being at index \<open>tuple2\<close>. Within one die the revert does not
  restore the sequence: moving tuple 2 to index 0 and back leaves the blocks in the order
  0, 2, 1.
\<close>

lemma moveTuples_same_die_revert_example:
  "map CBL (dies (projr (moveTuples (projr (moveTuples example_core_three 0 0 2 0)) 0 0 0 2))) =
     [\<lparr>S = [0, 2, 1], L = [HORIZONTAL, HORIZONTAL, VERTICAL], T = [0, 2, 1]\<rparr>]"
  by (simp add: moveTuples_def example_core_three_def example_die_def die_in_range_def
      the_die_def tuple_in_range_def vec_insert_def vec_erase_def tuple_at_def)

text \<open>
  C5. Same-layer relocation: for distinct valid indices, \<open>moveTuples\<close> with
  \<open>die1 = die2\<close> keeps the number of tuples and the relocated tuple's block, direction
  and junction count, and the tuple is to be at the destination index. The code at the
  sequence of three tuples: relocating tuple 0 to index 2 leaves it at index 1, index 2
  still holding the tuple that was there, and relocating tuple 0 to index 1 changes
  nothing.
\<close>

theorem moveTuples_same_die_lands_before_destination:
  "tuple_at example_core_three 0 0 = (0, HORIZONTAL, 0)
   \<and> \<not> isl (moveTuples example_core_three 0 0 0 2)
   \<and> tuple_at (projr (moveTuples example_core_three 0 0 0 2)) 0 1 = (0, HORIZONTAL, 0)
   \<and> tuple_at (projr (moveTuples example_core_three 0 0 0 2)) 0 2 = (2, HORIZONTAL, 2)
   \<and> map CBL (dies (projr (moveTuples example_core_three 0 0 0 1))) = map CBL (dies example_core_three)"
  by (simp add: moveTuples_def example_core_three_def example_die_def die_in_range_def
      the_die_def tuple_in_range_def vec_insert_def vec_erase_def tuple_at_def)


subsection \<open>Swapping blocks across dies\<close>

lemma map_update_same: "(map f xs)[i := f (xs ! i)] = map f xs"
  by (cases "i < length xs") (simp_all add: list_update_same_conv list_update_beyond)

lemma map_L_update_same:
  "(map (\<lambda>d. L (CBL d)) xs)[i := L (CBL (xs ! i))] = map (\<lambda>d. L (CBL d)) xs"
  using map_update_same [of "\<lambda>d. L (CBL d)" xs i] by simp

lemma map_T_update_same:
  "(map (\<lambda>d. T (CBL d)) xs)[i := T (CBL (xs ! i))] = map (\<lambda>d. T (CBL d)) xs"
  using map_update_same [of "\<lambda>d. T (CBL d)" xs i] by simp

text \<open>
  C6 (amended). Cross-layer swap: for two different dies and valid tuple indices holding
  two different blocks, \<open>swapBlocks\<close> exchanges the two block pointers between the block
  lists \<open>S\<close> of the two dies and leaves the directions \<open>L\<close> and the junction counts \<open>T\<close> of
  every die in place; the layer field of the block that was in the first die becomes the
  second die's id and the layer field of the block that was in the second die becomes the
  first die's id.
\<close>

theorem swapBlocks_across_dies:
  assumes "die1 \<noteq> die2"
    and "die_in_range c die1" and "die_in_range c die2"
    and "tuple_in_range (CBL (the_die c die1)) tuple1"
    and "tuple_in_range (CBL (the_die c die2)) tuple2"
    and "fst (tuple_at c die1 tuple1) \<noteq> fst (tuple_at c die2 tuple2)"
  shows "\<not> isl (swapBlocks c die1 die2 tuple1 tuple2)
       \<and> S (CBL (the_die (projr (swapBlocks c die1 die2 tuple1 tuple2)) die1)) =
           (S (CBL (the_die c die1)))[nat tuple1 := fst (tuple_at c die2 tuple2)]
       \<and> S (CBL (the_die (projr (swapBlocks c die1 die2 tuple1 tuple2)) die2)) =
           (S (CBL (the_die c die2)))[nat tuple2 := fst (tuple_at c die1 tuple1)]
       \<and> map (\<lambda>d. L (CBL d)) (dies (projr (swapBlocks c die1 die2 tuple1 tuple2))) = map (\<lambda>d. L (CBL d)) (dies c)
       \<and> map (\<lambda>d. T (CBL d)) (dies (projr (swapBlocks c die1 die2 tuple1 tuple2))) = map (\<lambda>d. T (CBL d)) (dies c)
       \<and> layer (blocks (projr (swapBlocks c die1 die2 tuple1 tuple2)) (fst (tuple_at c die1 tuple1))) = die2
       \<and> layer (blocks (projr (swapBlocks c die1 die2 tuple1 tuple2)) (fst (tuple_at c die2 tuple2))) = die1"
proof -
  obtain d1 where d1: "die1 = int d1" "d1 < length (dies c)"
    using assms(2) by (auto simp add: die_in_range_def elim: nonneg_int_cases)
  obtain d2 where d2: "die2 = int d2" "d2 < length (dies c)"
    using assms(3) by (auto simp add: die_in_range_def elim: nonneg_int_cases)
  obtain t1 where t1: "tuple1 = int t1"
    using assms(4) by (auto simp add: tuple_in_range_def elim: nonneg_int_cases)
  obtain t2 where t2: "tuple2 = int t2"
    using assms(5) by (auto simp add: tuple_in_range_def elim: nonneg_int_cases)
  have ne: "d1 \<noteq> d2"
    using assms(1) by (simp add: d1 d2)
  have r1: "t1 < length (S (CBL (dies c ! d1)))"
    using assms(4) by (simp add: tuple_in_range_def the_die_def d1 t1)
  have r2: "t2 < length (S (CBL (dies c ! d2)))"
    using assms(5) by (simp add: tuple_in_range_def the_die_def d2 t2)
  have nb: "S (CBL (dies c ! d1)) ! t1 \<noteq> S (CBL (dies c ! d2)) ! t2"
    using assms(6) by (simp add: tuple_at_def the_die_def d1 d2 t1 t2 Let_def)
  show ?thesis
    using d1(2) d2(2) ne r1 r2 nb
    by (simp add: swapBlocks_def die_in_range_def the_die_def tuple_at_def
        d1(1) d2(1) t1 t2 Let_def map_update map_L_update_same map_T_update_same)
qed


theorem swapBlocks_across_dies_witness:
  "(0::int) \<noteq> 1
   \<and> die_in_range example_core 0 \<and> die_in_range example_core 1
   \<and> tuple_in_range (CBL (the_die example_core 0)) 0
   \<and> tuple_in_range (CBL (the_die example_core 1)) 0
   \<and> fst (tuple_at example_core 0 0) \<noteq> fst (tuple_at example_core 1 0)
   \<and> S (CBL (the_die (projr (swapBlocks example_core 0 1 0 0)) 0)) = [1]
   \<and> S (CBL (the_die (projr (swapBlocks example_core 0 1 0 0)) 1)) = [0, 2]
   \<and> layer (blocks (projr (swapBlocks example_core 0 1 0 0)) 0) = 1
   \<and> layer (blocks (projr (swapBlocks example_core 0 1 0 0)) 1) = 0"
proof -
  have h1: "(0::int) \<noteq> 1"
    by simp
  have h2: "die_in_range example_core 0" and h3: "die_in_range example_core 1"
    by (simp_all add: die_in_range_def example_core_def)
  have h4: "tuple_in_range (CBL (the_die example_core 0)) 0"
    and h5: "tuple_in_range (CBL (the_die example_core 1)) 0"
    by (simp_all add: tuple_in_range_def the_die_def example_core_def example_die_def)
  have t: "fst (tuple_at example_core 0 0) = 0" "fst (tuple_at example_core 1 0) = 1"
    "S (CBL (the_die example_core 0)) = [0]" "S (CBL (the_die example_core 1)) = [1, 2]"
    by (simp_all add: tuple_at_def the_die_def example_core_def example_die_def)
  have h6: "fst (tuple_at example_core 0 0) \<noteq> fst (tuple_at example_core 1 0)"
    by (simp add: t)
  show ?thesis
    using h1 h2 h3 h4 h5 h6 swapBlocks_across_dies [OF h1 h2 h3 h4 h5 h6]
    by (simp add: t)
qed

text \<open>
  The claim as stated fails: the directions and junction counts stay where they are, so
  the tuples are not exchanged. After swapping tuple 0 of die 0 with tuple 0 of die 1, die
  0 holds block 1 with its own direction and junction count, not the tuple of die 1.
\<close>

theorem swapBlocks_keeps_direction_and_junctions:
  "\<not> isl (swapBlocks example_core 0 1 0 0)
   \<and> tuple_at example_core 1 0 = (1, VERTICAL, 3)
   \<and> tuple_at (projr (swapBlocks example_core 0 1 0 0)) 0 0 = (1, HORIZONTAL, 0)"
  by (simp add: swapBlocks_def example_core_def example_die_def die_in_range_def
      the_die_def tuple_at_def)

subsection \<open>Operators\<close>

lemma bindE_Inr_iff: "bindE m f = Inr r \<longleftrightarrow> (\<exists>v. m = Inr v \<and> f v = Inr r)"
  by (cases m) (simp_all add: bindE_def)

lemma empty_die_check_Inr:
  "empty_die_check mode corb die1 die2 = Inr e \<Longrightarrow>
     e \<longleftrightarrow> (mode = OP_MOVE_TUPLE \<and> CBL_empty (CBL (the_die corb die1)))
         \<or> (mode = OP_SWAP_BLOCKS \<and> (CBL_empty (CBL (the_die corb die1)) \<or> CBL_empty (CBL (the_die corb die2))))"
  by (auto simp add: empty_die_check_def bindE_Inr_iff getDie_def OP_MOVE_TUPLE_def OP_SWAP_BLOCKS_def
      split: if_splits)

lemma different_tuples_Inr:
  "different_tuples corb die1 die2 tuple1 tuple2 rnd = Inr (too_few, t2, rnd') \<Longrightarrow>
     too_few \<longleftrightarrow> die1 = die2 \<and> CBL_size (CBL (the_die corb die1)) < 2"
  by (auto simp add: different_tuples_def bindE_Inr_iff getDie_def split: if_splits)

lemma power_aware_violation_Inr:
  "power_aware_violation ops corb die1 die2 tuple1 tuple2 = Inr v \<Longrightarrow>
     v \<longleftrightarrow> param_power_aware_block_handling (params ops)
         \<and> (die1 < die2
              \<and> power_density (blocks corb (S (CBL (the_die corb die1)) ! nat tuple1))
                < power_density (blocks corb (S (CBL (the_die corb die2)) ! nat tuple2))
            \<or> die2 < die1
              \<and> power_density (blocks corb (S (CBL (the_die corb die2)) ! nat tuple2))
                < power_density (blocks corb (S (CBL (the_die corb die1)) ! nat tuple1)))"
  by (auto simp add: power_aware_violation_def bindE_Inr_iff getDie_def getBlock_def split: if_splits)

lemma floorplacement_ban_Inr:
  "floorplacement_ban ops SA_phase_one corb die1 die2 tuple1 tuple2 = Inr v \<Longrightarrow>
     v \<longleftrightarrow> param_floorplacement (params ops) \<and> SA_phase_one
         \<and> (floorplacement (blocks corb (S (CBL (the_die corb die1)) ! nat tuple1))
            \<or> floorplacement (blocks corb (S (CBL (the_die corb die2)) ! nat tuple2)))"
  by (auto simp add: floorplacement_ban_def bindE_Inr_iff getDie_def getBlock_def split: if_splits)

lemma move_or_swap_run:
  assumes "performOpMoveOrSwapBlocks ops mode False SA_phase_one corb die1 die2 tuple1 tuple2 rnd =
             Inr (ret, corb', d1, d2, t1, t2, rnd')"
  shows "(\<not> ret \<longleftrightarrow> operand_selection_fails ops mode SA_phase_one corb d1 d2 t1 t2)
       \<and> (\<not> ret \<longrightarrow> corb' = corb)"
  using assms
  unfolding performOpMoveOrSwapBlocks_def operand_selection_fails_def no_operands_def
    operands_rejected_def Let_def
  by (auto simp add: bindE_Inr_iff split: if_splits
      dest!: empty_die_check_Inr different_tuples_Inr power_aware_violation_Inr
        floorplacement_ban_Inr)

lemma select_dies_given:
  "die1 \<noteq> - 1 \<Longrightarrow> die2 \<noteq> - 1 \<Longrightarrow> select_dies ops die1 die2 rnd = Inr (die1, die2, rnd)"
  by (simp add: select_dies_def bindE_def)

lemma select_tuples_given:
  "tuple1 \<noteq> - 1 \<Longrightarrow> tuple2 \<noteq> - 1 \<Longrightarrow>
   select_tuples corb die1 die2 tuple1 tuple2 rnd = Inr (tuple1, tuple2, rnd)"
  by (simp add: select_tuples_def bindE_def)

lemma empty_die_check_in_range:
  "die_in_range corb die1 \<Longrightarrow> die_in_range corb die2 \<Longrightarrow>
   empty_die_check mode corb die1 die2 =
     Inr ((mode = OP_MOVE_TUPLE \<and> CBL_empty (CBL (the_die corb die1)))
        \<or> (mode = OP_SWAP_BLOCKS
             \<and> (CBL_empty (CBL (the_die corb die1)) \<or> CBL_empty (CBL (the_die corb die2)))))"
  by (simp add: empty_die_check_def bindE_def getDie_def OP_MOVE_TUPLE_def OP_SWAP_BLOCKS_def)

lemma different_tuples_too_few:
  "die_in_range corb die1 \<Longrightarrow> die1 = die2 \<Longrightarrow> CBL_size (CBL (the_die corb die1)) < 2 \<Longrightarrow>
   different_tuples corb die1 die2 tuple1 tuple2 rnd = Inr (True, tuple2, rnd)"
  by (simp add: different_tuples_def bindE_def getDie_def)

lemma different_tuples_given:
  "die_in_range corb die1 \<Longrightarrow> \<not> (die1 = die2 \<and> CBL_size (CBL (the_die corb die1)) < 2) \<Longrightarrow>
   die1 = die2 \<longrightarrow> tuple1 \<noteq> tuple2 \<Longrightarrow>
   different_tuples corb die1 die2 tuple1 tuple2 rnd = Inr (False, tuple2, rnd)"
  by (auto simp add: different_tuples_def bindE_def getDie_def)

lemma policy_checks_given:
  assumes "die_in_range corb die1" and "die_in_range corb die2"
    and "operands_given corb die1 die2 tuple1 tuple2"
  shows "\<exists>violation banned.
           power_aware_violation ops corb die1 die2 tuple1 tuple2 = Inr violation
         \<and> floorplacement_ban ops SA_phase_one corb die1 die2 tuple1 tuple2 = Inr banned
         \<and> (violation \<or> banned \<longleftrightarrow> operands_rejected ops SA_phase_one corb die1 die2 tuple1 tuple2)"
  using assms
  by (auto simp add: power_aware_violation_def floorplacement_ban_def operands_rejected_def
      operands_given_def bindE_def getDie_def getBlock_def Let_def)

lemma move_or_swap_rejects:
  assumes d: "die_in_range corb die1" "die_in_range corb die2"
    and t: "tuple1 \<noteq> - 1" "tuple2 \<noteq> - 1"
    and given: "\<not> no_operands mode corb die1 die2 \<longrightarrow> operands_given corb die1 die2 tuple1 tuple2"
    and fails: "operand_selection_fails ops mode SA_phase_one corb die1 die2 tuple1 tuple2"
  shows "performOpMoveOrSwapBlocks ops mode False SA_phase_one corb die1 die2 tuple1 tuple2 rnd =
           Inr (False, corb, die1, die2, tuple1, tuple2, rnd)"
proof -
  have n: "die1 \<noteq> - 1" "die2 \<noteq> - 1"
    using d by (auto simp add: die_in_range_def)
  note sd = select_dies_given [OF n, of ops rnd]
  note st = select_tuples_given [OF t, of corb die1 die2 rnd]
  note ec = empty_die_check_in_range [OF d, of mode]
  show ?thesis
  proof (cases "no_operands mode corb die1 die2")
    case True
    show ?thesis
    proof (cases "(mode = OP_MOVE_TUPLE \<and> CBL_empty (CBL (the_die corb die1)))
        \<or> (mode = OP_SWAP_BLOCKS
             \<and> (CBL_empty (CBL (the_die corb die1)) \<or> CBL_empty (CBL (the_die corb die2))))")
      case empty: True
      then show ?thesis
        by (simp add: performOpMoveOrSwapBlocks_def sd ec bindE_def)
    next
      case False
      with True have few: "die1 = die2" "CBL_size (CBL (the_die corb die1)) < 2"
        by (auto simp add: no_operands_def)
      show ?thesis
        using False
        by (simp add: performOpMoveOrSwapBlocks_def sd ec st
            different_tuples_too_few [OF d(1) few] bindE_def)
    qed
  next
    case False
    with given have g: "operands_given corb die1 die2 tuple1 tuple2"
      by simp
    from False fails have rej: "operands_rejected ops SA_phase_one corb die1 die2 tuple1 tuple2"
      by (simp add: operand_selection_fails_def)
    from False have e: "\<not> ((mode = OP_MOVE_TUPLE \<and> CBL_empty (CBL (the_die corb die1)))
        \<or> (mode = OP_SWAP_BLOCKS
             \<and> (CBL_empty (CBL (the_die corb die1)) \<or> CBL_empty (CBL (the_die corb die2)))))"
      and f: "\<not> (die1 = die2 \<and> CBL_size (CBL (the_die corb die1)) < 2)"
      by (auto simp add: no_operands_def)
    have dt: "different_tuples corb die1 die2 tuple1 tuple2 rnd = Inr (False, tuple2, rnd)"
      using g by (intro different_tuples_given [OF d(1) f]) (simp add: operands_given_def)
    from policy_checks_given [OF d g, of ops SA_phase_one] rej obtain violation banned where
      pv: "power_aware_violation ops corb die1 die2 tuple1 tuple2 = Inr violation"
      and fb: "floorplacement_ban ops SA_phase_one corb die1 die2 tuple1 tuple2 = Inr banned"
      and vb: "violation \<or> banned"
      by blast
    show ?thesis
      using e vb
      by (auto simp add: performOpMoveOrSwapBlocks_def sd ec st dt pv fb bindE_def)
  qed
qed

text \<open>
  C7. Operator atomicity. Whatever a fresh (non-revert) call of
  \<open>performOpMoveOrSwapBlocks\<close> returns, it returns false exactly when operand selection
  has failed for the operands it leaves in its reference parameters (no operands to
  select: an empty origin die of a move, an empty die of a swap, an operation within one
  die of fewer than two tuples; or operands rejected: a violation of the power-aware
  layering, the ban on floorplacement blocks), and then the core is the one the call was
  given: no sequence and no block has been changed. And the call does return false when
  the selection fails for operands that the caller gives: dies in range, tuples assigned,
  and tuples that index the dies' block lists and differ within one die unless there are
  no operands to select.
\<close>

theorem performOpMoveOrSwapBlocks_atomic:
  "(performOpMoveOrSwapBlocks ops mode False SA_phase_one corb die1 die2 tuple1 tuple2 rnd =
      Inr (ret, corb', d1, d2, t1, t2, rnd')
    \<longrightarrow> (\<not> ret \<longleftrightarrow> operand_selection_fails ops mode SA_phase_one corb d1 d2 t1 t2)
        \<and> (\<not> ret \<longrightarrow> corb' = corb))
   \<and> (die_in_range corb die1 \<and> die_in_range corb die2 \<and> tuple1 \<noteq> - 1 \<and> tuple2 \<noteq> - 1
      \<and> (\<not> no_operands mode corb die1 die2 \<longrightarrow> operands_given corb die1 die2 tuple1 tuple2)
      \<and> operand_selection_fails ops mode SA_phase_one corb die1 die2 tuple1 tuple2
    \<longrightarrow> performOpMoveOrSwapBlocks ops mode False SA_phase_one corb die1 die2 tuple1 tuple2 rnd =
          Inr (False, corb, die1, die2, tuple1, tuple2, rnd))"
  using move_or_swap_run [of ops mode SA_phase_one corb die1 die2 tuple1 tuple2 rnd ret corb' d1 d2 t1 t2 rnd']
    move_or_swap_rejects [of corb die1 die2 tuple1 tuple2 mode ops SA_phase_one rnd]
  by blast

theorem performOpMoveOrSwapBlocks_atomic_witness:
  "die_in_range example_core_power 0 \<and> die_in_range example_core_power 1
   \<and> operands_given example_core_power 0 1 0 0
   \<and> operand_selection_fails example_ops OP_SWAP_BLOCKS False example_core_power 0 1 0 0
   \<and> performOpMoveOrSwapBlocks example_ops OP_SWAP_BLOCKS False False example_core_power 0 1 0 0 example_rnd =
       Inr (False, example_core_power, 0, 1, 0, 0, example_rnd)
   \<and> performOpMoveOrSwapBlocks example_ops OP_SWAP_BLOCKS False False example_core 0 0 (-1) (-1) example_rnd =
       Inr (False, example_core, 0, 0, 0, 0, example_rnd\<lparr>ints := []\<rparr>)
   \<and> operand_selection_fails example_ops OP_SWAP_BLOCKS False example_core 0 0 0 0"
proof -
  have d: "die_in_range example_core_power 0" "die_in_range example_core_power 1"
    by (simp_all add: die_in_range_def example_core_power_def example_core_def)
  have g: "operands_given example_core_power 0 1 0 0"
    by (simp add: operands_given_def the_die_def example_core_power_def example_core_def
        example_die_def)
  have f: "operand_selection_fails example_ops OP_SWAP_BLOCKS False example_core_power 0 1 0 0"
    by (simp add: operand_selection_fails_def operands_rejected_def the_die_def
        example_core_power_def example_core_def example_die_def example_store_def
        example_block_def example_ops_def)
  have n: "(0::int) \<noteq> - 1"
    by simp
  have r: "performOpMoveOrSwapBlocks example_ops OP_SWAP_BLOCKS False False example_core_power 0 1 0 0 example_rnd =
       Inr (False, example_core_power, 0, 1, 0, 0, example_rnd)"
    using d g f n
      performOpMoveOrSwapBlocks_atomic [of example_ops OP_SWAP_BLOCKS False example_core_power 0 1 0 0 example_rnd]
    by blast
  have h: "performOpMoveOrSwapBlocks example_ops OP_SWAP_BLOCKS False False example_core 0 0 (-1) (-1) example_rnd =
     Inr (False, example_core, 0, 0, 0, 0, example_rnd\<lparr>ints := []\<rparr>)"
    by (simp add: performOpMoveOrSwapBlocks_def select_dies_def empty_die_check_def
        select_tuples_def different_tuples_def bindE_def getDie_def randI_def die_in_range_def
        the_die_def CBL_empty_def CBL_size_def OP_SWAP_BLOCKS_def OP_MOVE_TUPLE_def
        example_core_def example_die_def example_rnd_def example_ops_def)
  have "operand_selection_fails example_ops OP_SWAP_BLOCKS False example_core 0 0 0 0"
    using h performOpMoveOrSwapBlocks_atomic [of example_ops OP_SWAP_BLOCKS False example_core 0 0 "- 1" "- 1"
        example_rnd False example_core 0 0 0 0 "example_rnd\<lparr>ints := []\<rparr>"]
    by blast
  then show ?thesis
    using d g f r h by simp
qed

lemma word_of_sint_succ: "word_of_int (sint (c :: 32 word) + 1) = c + 1"
  by simp

lemma word_of_sint_pred: "word_of_int (sint (c :: 32 word) - 1) = c - 1"
  by simp

lemma sint_in_range: "- (2 ^ 31) \<le> v \<Longrightarrow> v < 2 ^ 31 \<Longrightarrow> sint (word_of_int v :: 32 word) = v"
  by (simp add: signed_take_bit_int_eq_self sint_sbintrunc')

lemma unat_of_nonneg: "0 \<le> v \<Longrightarrow> v < 2 ^ 31 \<Longrightarrow> unat (word_of_int v :: 32 word) = nat v"
  by (simp add: unat_eq_nat_uint uint_word_of_int take_bit_int_eq_self)

lemma unat_sint_nonneg:
  assumes "0 \<le> sint (c :: 32 word)"
  shows "unat c = nat (sint c)"
proof -
  have "sint c < 2 ^ 31"
    using sint_lt [of c] by simp
  with assms have "unat (word_of_int (sint c) :: 32 word) = nat (sint c)"
    by (rule unat_of_nonneg)
  then show ?thesis
    by simp
qed

lemma switch_junctions_run:
  assumes "performOpSwitchTupleJunctions ops False corb die1 tuple1 juncts rnd =
             Inr (True, corb', d, t, j, rnd')"
  shows "\<exists>new_juncts.
           die_in_range corb d \<and> 0 \<le> t \<and> nat t < length (T (CBL (the_die corb d)))
         \<and> j = sint (junctions_at corb d t)
         \<and> (if j = 0 then new_juncts = 1 else new_juncts = j + 1 \<or> new_juncts = j - 1)
         \<and> - (2 ^ 31) \<le> new_juncts \<and> new_juncts < 2 ^ 31
         \<and> switchTupleJunctions corb d t new_juncts = Inr corb'"
  using assms unfolding performOpSwitchTupleJunctions_def
  by (auto simp add: bindE_def randI_def randB_def getDie_def getJunctions_def int_range_def
      Let_def junctions_at_def
      split: if_splits sum.splits prod.splits list.splits)


lemma switchTupleJunctions_result:
  assumes "switchTupleJunctions c die tuple v = Inr c'"
  shows "junctions_at c' die tuple = word_of_int v
       \<and> T (CBL (the_die c' die)) = (T (CBL (the_die c die)))[nat tuple := word_of_int v]
       \<and> blocks c' = blocks c"
  using assms
  by (auto simp add: switchTupleJunctions_def junctions_at_def the_die_def die_in_range_def Let_def
      split: if_splits)

lemma switch_junctions_changes_by_one:
  assumes "performOpSwitchTupleJunctions ops False corb die1 tuple1 juncts rnd =
             Inr (True, corb', d, t, j, rnd')"
  shows "die_in_range corb d \<and> 0 \<le> t \<and> nat t < length (T (CBL (the_die corb d)))
       \<and> (junctions_at corb d t = 0 \<longrightarrow> junctions_at corb' d t = 1)
       \<and> (junctions_at corb d t \<noteq> 0 \<longrightarrow>
            junctions_at corb' d t = junctions_at corb d t + 1
          \<or> junctions_at corb' d t = junctions_at corb d t - 1)
       \<and> (0 \<le> sint (junctions_at corb d t) \<longrightarrow>
            0 \<le> sint (junctions_at corb' d t)
          \<and> (junctions_at corb d t \<noteq> 0 \<longrightarrow>
                unat (junctions_at corb' d t) = unat (junctions_at corb d t) + 1
              \<or> unat (junctions_at corb' d t) + 1 = unat (junctions_at corb d t)))"
proof -
  let ?c = "junctions_at corb d t"
  from switch_junctions_run [OF assms] obtain new_juncts where
    valid: "die_in_range corb d" "0 \<le> t" "nat t < length (T (CBL (the_die corb d)))"
    and j: "j = sint ?c"
    and new: "if j = 0 then new_juncts = 1 else new_juncts = j + 1 \<or> new_juncts = j - 1"
    and range: "- (2 ^ 31) \<le> new_juncts" "new_juncts < 2 ^ 31"
    and sw: "switchTupleJunctions corb d t new_juncts = Inr corb'"
    by blast
  have c': "junctions_at corb' d t = word_of_int new_juncts"
    using switchTupleJunctions_result [OF sw] by simp
  have z: "j = 0 \<longleftrightarrow> ?c = 0"
    unfolding j by (rule signed_eq_0_iff)
  have zero: "?c = 0 \<longrightarrow> junctions_at corb' d t = 1"
    using new z by (simp add: c')
  have step: "?c \<noteq> 0 \<longrightarrow> junctions_at corb' d t = ?c + 1 \<or> junctions_at corb' d t = ?c - 1"
    using new z by (auto simp add: c' j)
  have nonneg: "0 \<le> sint ?c \<longrightarrow>
      0 \<le> sint (junctions_at corb' d t)
      \<and> (?c \<noteq> 0 \<longrightarrow> unat (junctions_at corb' d t) = unat ?c + 1
                      \<or> unat (junctions_at corb' d t) + 1 = unat ?c)"
  proof
    assume pos: "0 \<le> sint ?c"
    have n0: "0 \<le> new_juncts"
      using new pos z j by (auto split: if_splits)
    have s: "sint (junctions_at corb' d t) = new_juncts"
      unfolding c' using range by (rule sint_in_range)
    have u': "unat (junctions_at corb' d t) = nat new_juncts"
      unfolding c' using n0 range(2) by (rule unat_of_nonneg)
    have u: "unat ?c = nat j"
      unfolding j using pos by (rule unat_sint_nonneg)
    have "?c \<noteq> 0 \<longrightarrow> nat new_juncts = nat j + 1 \<or> nat new_juncts + 1 = nat j"
      using new z pos j n0 by (auto split: if_splits)
    then show "0 \<le> sint (junctions_at corb' d t)
      \<and> (?c \<noteq> 0 \<longrightarrow> unat (junctions_at corb' d t) = unat ?c + 1
                      \<or> unat (junctions_at corb' d t) + 1 = unat ?c)"
      using n0 by (simp add: s u u')
  qed
  show ?thesis
    using valid zero step nonneg by blast
qed

lemma uint_less_of_unat_less: "unat (c :: 32 word) < n \<Longrightarrow> uint c < int n"
  unfolding uint_nat by (rule iffD2 [OF of_nat_less_iff])

lemma sint_of_small:
  assumes "unat (c :: 32 word) < 2 ^ 31"
  shows "sint c = uint c"
proof -
  have "uint c < 2 ^ 31"
    using uint_less_of_unat_less [OF assms] by simp
  moreover have "- (2 ^ 31) \<le> uint c"
  proof -
    have "- (2 ^ 31) \<le> (0::int)"
      by simp
    then show ?thesis
      using uint_nonnegative by (rule order_trans)
  qed
  ultimately have "sint (word_of_int (uint c) :: 32 word) = uint c"
    by (intro sint_in_range)
  then show ?thesis
    by simp
qed

lemma switch_junctions_returns:
  assumes d: "die_in_range corb die1"
    and t: "tuple_in_range (CBL (the_die corb die1)) tuple1"
    and small: "unat (junctions_at corb die1 tuple1) < 2 ^ 31 - 1"
    and draw: "junctions_at corb die1 tuple1 = 0 \<or> bools rnd \<noteq> []"
  shows "\<exists>corb' rnd'. performOpSwitchTupleJunctions ops False corb die1 tuple1 juncts rnd =
           Inr (True, corb', die1, tuple1, sint (junctions_at corb die1 tuple1), rnd')"
proof -
  let ?c = "junctions_at corb die1 tuple1"
  have s: "sint ?c = uint ?c"
    using small by (intro sint_of_small) simp
  have r: "0 \<le> sint ?c" "sint ?c < 2 ^ 31 - 1"
    using uint_less_of_unat_less [OF small] by (simp_all add: s)
  have z: "sint ?c = 0 \<longleftrightarrow> ?c = 0"
    by (rule signed_eq_0_iff)
  have pre: "die1 \<noteq> - 1" "tuple1 \<noteq> - 1" "\<not> CBL_empty (CBL (the_die corb die1))"
    "0 \<le> tuple1" "nat tuple1 < length (T (CBL (the_die corb die1)))"
    using d t by (auto simp add: die_in_range_def tuple_in_range_def CBL_empty_def)
  have g: "getJunctions (the_die corb die1) tuple1 = Inr ?c"
    using pre by (simp add: getJunctions_def junctions_at_def)
  have sw: "\<And>v. \<exists>c'. switchTupleJunctions corb die1 tuple1 v = Inr c'"
    using d pre by (simp add: switchTupleJunctions_def Let_def)
  show ?thesis
  proof (cases "?c = 0")
    case True
    then show ?thesis
      using d pre g sw [of 1] r z
      by (auto simp add: performOpSwitchTupleJunctions_def bindE_def getDie_def int_range_def Let_def)
  next
    case False
    with draw obtain up bs where b: "bools rnd = up # bs"
      by (cases "bools rnd") auto
    show ?thesis
      using False d pre g sw [of "sint ?c + 1"] sw [of "sint ?c - 1"] r z b
      by (auto simp add: performOpSwitchTupleJunctions_def bindE_def getDie_def int_range_def
          randB_def Let_def)
  qed
qed

text \<open>
  C8. Junction-count operator. A fresh (non-revert) call of
  \<open>performOpSwitchTupleJunctions\<close> that returns true has selected a valid operand (die,
  index); a tuple whose junction count was 0 has the count 1; a nonzero count \<open>c\<close> has
  become \<open>c + 1\<close> or \<open>c - 1\<close> (in the unsigned arithmetic of the stored count, and as
  natural numbers for a count that is non-negative when read as the int the operator
  computes on); such a count stays non-negative. And the call does return true on every
  valid operand that the caller gives, the count being below \<open>2 ^ 31 - 1\<close> and a boolean
  draw being left for a nonzero count.
\<close>

theorem performOpSwitchTupleJunctions_changes_by_one:
  "(performOpSwitchTupleJunctions ops False corb die1 tuple1 juncts rnd =
      Inr (True, corb', d, t, j, rnd')
    \<longrightarrow> die_in_range corb d \<and> 0 \<le> t \<and> nat t < length (T (CBL (the_die corb d)))
       \<and> (junctions_at corb d t = 0 \<longrightarrow> junctions_at corb' d t = 1)
       \<and> (junctions_at corb d t \<noteq> 0 \<longrightarrow>
            junctions_at corb' d t = junctions_at corb d t + 1
          \<or> junctions_at corb' d t = junctions_at corb d t - 1)
       \<and> (0 \<le> sint (junctions_at corb d t) \<longrightarrow>
            0 \<le> sint (junctions_at corb' d t)
          \<and> (junctions_at corb d t \<noteq> 0 \<longrightarrow>
                unat (junctions_at corb' d t) = unat (junctions_at corb d t) + 1
              \<or> unat (junctions_at corb' d t) + 1 = unat (junctions_at corb d t))))
   \<and> (die_in_range corb die1 \<and> tuple_in_range (CBL (the_die corb die1)) tuple1
      \<and> unat (junctions_at corb die1 tuple1) < 2 ^ 31 - 1
      \<and> (junctions_at corb die1 tuple1 = 0 \<or> bools rnd \<noteq> [])
    \<longrightarrow> (\<exists>c r. performOpSwitchTupleJunctions ops False corb die1 tuple1 juncts rnd =
                 Inr (True, c, die1, tuple1, sint (junctions_at corb die1 tuple1), r)))"
  using switch_junctions_changes_by_one [of ops corb die1 tuple1 juncts rnd corb' d t j rnd']
    switch_junctions_returns [of corb die1 tuple1 rnd ops juncts]
  by blast

theorem performOpSwitchTupleJunctions_changes_by_one_witness:
  "die_in_range example_core 1 \<and> tuple_in_range (CBL (the_die example_core 1)) 1
   \<and> junctions_at example_core 1 1 = 1
   \<and> performOpSwitchTupleJunctions example_ops False example_core 1 1 (-1) example_rnd =
       Inr (True, projr (switchTupleJunctions example_core 1 1 0), 1, 1, 1, example_rnd\<lparr>bools := []\<rparr>)
   \<and> junctions_at (projr (switchTupleJunctions example_core 1 1 0)) 1 1 = 0"
proof -
  have h: "performOpSwitchTupleJunctions example_ops False example_core 1 1 (-1) example_rnd =
     Inr (True, projr (switchTupleJunctions example_core 1 1 0), 1, 1, 1, example_rnd\<lparr>bools := []\<rparr>)"
    by (simp add: performOpSwitchTupleJunctions_def bindE_def getDie_def getJunctions_def
        randB_def int_range_def switchTupleJunctions_def die_in_range_def the_die_def
        CBL_empty_def example_core_def example_die_def example_rnd_def)
  have v: "die_in_range example_core 1" "tuple_in_range (CBL (the_die example_core 1)) 1"
    by (simp_all add: die_in_range_def tuple_in_range_def the_die_def example_core_def
        example_die_def)
  have c: "junctions_at example_core 1 1 = 1"
    by (simp add: junctions_at_def the_die_def example_core_def example_die_def)
  have c': "junctions_at (projr (switchTupleJunctions example_core 1 1 0)) 1 1 = 0"
    by (simp add: junctions_at_def switchTupleJunctions_def die_in_range_def the_die_def
        example_core_def example_die_def)
  have "junctions_at (projr (switchTupleJunctions example_core 1 1 0)) 1 1 = 1 + 1
      \<or> junctions_at (projr (switchTupleJunctions example_core 1 1 0)) 1 1 = 1 - 1"
    using h c performOpSwitchTupleJunctions_changes_by_one [of example_ops example_core 1 1 "- 1"
        example_rnd "projr (switchTupleJunctions example_core 1 1 0)" 1 1 1 "example_rnd\<lparr>bools := []\<rparr>"]
    by simp
  then show ?thesis
    using h v c c' by simp
qed

subsection \<open>Placing the current block\<close>

lemma pop_relevant_general:
  "length relev \<le> n \<Longrightarrow> n - length relev \<le> length stack \<Longrightarrow>
   pop_relevant n relev stack =
     Inr (relev @ take (n - length relev) stack, drop (n - length relev) stack)"
proof (induction stack arbitrary: relev)
  case Nil
  then show ?case by simp
next
  case (Cons b rest)
  show ?case
  proof (cases "n > length relev")
    case True
    then have "pop_relevant n relev (b # rest) = pop_relevant n (relev @ [b]) rest"
      by simp
    also have "\<dots> = Inr ((relev @ [b]) @ take (n - length (relev @ [b])) rest,
                          drop (n - length (relev @ [b])) rest)"
      using True Cons.prems by (intro Cons.IH) simp_all
    also have "\<dots> = Inr (relev @ take (n - length relev) (b # rest),
                          drop (n - length relev) (b # rest))"
      using True by (simp add: take_Cons' drop_Cons')
    finally show ?thesis .
  next
    case False
    with Cons.prems show ?thesis by simp
  qed
qed

lemma pop_relevant_take_drop:
  "n \<le> length stack \<Longrightarrow> pop_relevant n [] stack = Inr (take n stack, drop n stack)"
  using pop_relevant_general [of "[]" n stack] by simp

lemma Min_insert_min:
  "finite A \<Longrightarrow> Min (insert (min a b) A) = min (a::real) (Min (insert b A))"
  by (cases "A = {}") (simp_all add: min.assoc)

lemma Max_insert_max:
  "finite A \<Longrightarrow> Max (insert (max a b) A) = max (a::real) (Max (insert b A))"
  by (cases "A = {}") (simp_all add: max.assoc)

lemma fold_min_Min:
  "fold (\<lambda>b (y::real). min y (f b)) bs y0 = Min (insert y0 (f ` set bs))"
proof (induction bs arbitrary: y0)
  case Nil
  then show ?case by simp
next
  case (Cons b bs)
  have "Min (insert (min y0 (f b)) (f ` set bs)) = Min (insert y0 (insert (f b) (f ` set bs)))"
    by (simp add: Min_insert_min)
  then show ?case
    using Cons.IH [of "min y0 (f b)"] by simp
qed

lemma fold_max_Max:
  "fold (\<lambda>b (x::real). if Q b then max x (f b) else x) bs x0 =
     Max (insert x0 (f ` set (filter Q bs)))"
proof (induction bs arbitrary: x0)
  case Nil
  then show ?case by simp
next
  case (Cons b bs)
  show ?case
  proof (cases "Q b")
    case True
    have "fold (\<lambda>b x. if Q b then max x (f b) else x) (b # bs) x0 =
          Max (insert (max x0 (f b)) (f ` set (filter Q bs)))"
      using True Cons.IH [of "max x0 (f b)"] by simp
    also have "\<dots> = max x0 (Max (insert (f b) (f ` set (filter Q bs))))"
      by (simp add: Max_insert_max)
    also have "\<dots> = Max (insert x0 (f ` set (filter Q (b # bs))))"
      using True by simp
    finally show ?thesis .
  next
    case False
    then show ?thesis
      using Cons.IH [of x0] by simp
  qed
qed

lemma fold_flag_all:
  "fold (\<lambda>b a. if Q b then False else a) bs a0 \<longleftrightarrow> a0 \<and> (\<forall>b\<in>set bs. \<not> Q b)"
  by (induction bs arbitrary: a0) auto

lemma fold_push_front_filter:
  "fold (\<lambda>b l. if K b then b # l else l) bs l0 = rev (filter K bs) @ l0"
  by (induction bs arbitrary: l0) auto

lemma fold_push_rev: "fold (\<lambda>b stack. b # stack) xs s0 = rev xs @ s0"
  by (induction xs arbitrary: s0) auto


lemma unat_succ_no_wrap: "unat (j :: 32 word) < 2 ^ 32 - 1 \<Longrightarrow> unat (j + 1) = unat j + 1"
  by (simp add: unat_word_ariths)

lemma lower_front_Min:
  "relev \<noteq> [] \<Longrightarrow> lower_front st relev = Inr (Min ((\<lambda>b. ll_y (bb (st b))) ` set relev))"
  by (cases relev) (simp_all add: lower_front_def fold_min_Min)

lemma left_front_Min:
  "relev \<noteq> [] \<Longrightarrow> left_front st relev = Inr (Min ((\<lambda>b. ll_x (bb (st b))) ` set relev))"
  by (cases relev) (simp_all add: left_front_def fold_min_Min)

lemma update_y_result:
  "dadd (rect_h (bb (st cur))) y = Inr uy \<Longrightarrow>
   update_y st cur y = Inr (st(cur := (st cur)\<lparr>bb := (bb (st cur))\<lparr>ll_y := y, ur_y := uy\<rparr>\<rparr>))"
  by (simp add: update_y_def bindE_def)

lemma update_x_result:
  "dadd (rect_w (bb (st cur))) x = Inr ux \<Longrightarrow>
   update_x st cur x = Inr (st(cur := (st cur)\<lparr>bb := (bb (st cur))\<lparr>ll_x := x, ur_x := ux\<rparr>\<rparr>))"
  by (simp add: update_x_def bindE_def)

lemma popped_coordinates_mem:
  "0 \<in> set (popped_coordinates st popped)"
  "b \<in> set popped \<Longrightarrow> ll_x (bb (st b)) \<in> set (popped_coordinates st popped)"
  "b \<in> set popped \<Longrightarrow> ll_y (bb (st b)) \<in> set (popped_coordinates st popped)"
  "b \<in> set popped \<Longrightarrow> ur_x (bb (st b)) \<in> set (popped_coordinates st popped)"
  "b \<in> set popped \<Longrightarrow> ur_y (bb (st b)) \<in> set (popped_coordinates st popped)"
  by (auto simp add: popped_coordinates_def)

lemma not_isl_Inr: "\<not> isl s \<Longrightarrow> \<exists>u. s = Inr u"
  by (cases s) simp_all

lemma sums_finite_dadd:
  assumes "sums_finite st cur popped" and "v \<in> set (popped_coordinates st popped)"
  shows "\<exists>u. dadd (rect_w (bb (st cur))) v = Inr u" and "\<exists>u. dadd (rect_h (bb (st cur))) v = Inr u"
  using assms by (auto simp add: sums_finite_def list_all_iff intro: not_isl_Inr)

lemma front_coordinate:
  assumes "bs \<noteq> [] \<or> rest = []" and "\<And>b. b \<in> set bs \<Longrightarrow> f b \<in> C" and "0 \<in> C"
  shows "(if rest = [] then 0 else Min (f ` set bs)) \<in> (C :: real set)"
proof (cases "rest = []")
  case True
  with assms(3) show ?thesis by simp
next
  case False
  with assms(1) have "Min (f ` set bs) \<in> f ` set bs"
    by (intro Min_in) simp_all
  with False assms(2) show ?thesis by auto
qed

lemma cover_coordinate:
  assumes "\<And>b. b \<in> set bs \<Longrightarrow> f b \<in> C" and "0 \<in> C"
  shows "Max (insert 0 (f ` set (filter Q bs))) \<in> (C :: real set)"
proof -
  have "Max (insert 0 (f ` set (filter Q bs))) \<in> insert 0 (f ` set (filter Q bs))"
    by (intro Max_in) simp_all
  with assms show ?thesis by auto
qed

lemma right_front_Max:
  assumes "\<And>b. b \<in> set relev \<Longrightarrow> st' b = st b"
  shows "right_front P st' cur relev =
           Max (insert 0 ((\<lambda>b. ur_x (bb (st b))) `
             set (filter (\<lambda>b. rectsIntersectVertical P (bb (st' cur)) (bb (st b))) relev)))"
proof -
  have "right_front P st' cur relev =
          fold (\<lambda>b x. if rectsIntersectVertical P (bb (st' cur)) (bb (st b))
                       then max x (ur_x (bb (st b))) else x) relev 0"
    unfolding right_front_def by (rule fold_cong) (simp_all add: assms cong: if_cong)
  then show ?thesis
    by (simp add: fold_max_Max)
qed

lemma upper_front_Max:
  assumes "\<And>b. b \<in> set relev \<Longrightarrow> st' b = st b"
  shows "upper_front P st' cur relev =
           Max (insert 0 ((\<lambda>b. ur_y (bb (st b))) `
             set (filter (\<lambda>b. rectsIntersectHorizontal P (bb (st' cur)) (bb (st b))) relev)))"
proof -
  have "upper_front P st' cur relev =
          fold (\<lambda>b y. if rectsIntersectHorizontal P (bb (st' cur)) (bb (st b))
                       then max y (ur_y (bb (st b))) else y) relev 0"
    unfolding upper_front_def by (rule fold_cong) (simp_all add: assms cong: if_cong)
  then show ?thesis
    by (simp add: fold_max_Max)
qed

lemma none_above_iff:
  assumes "\<And>b. b \<in> set relev \<Longrightarrow> st' b = st b"
  shows "none_above P st' cur relev \<longleftrightarrow>
           (\<forall>b\<in>set relev. \<not> rectA_below_rectB P (bb (st' cur)) (bb (st b)) False)"
proof -
  have "none_above P st' cur relev =
          fold (\<lambda>b a. if rectA_below_rectB P (bb (st' cur)) (bb (st b)) False then False else a)
            relev True"
    unfolding none_above_def by (rule fold_cong) (simp_all add: assms cong: if_cong)
  then show ?thesis
    by (simp add: fold_flag_all)
qed

lemma none_right_iff:
  assumes "\<And>b. b \<in> set relev \<Longrightarrow> st' b = st b"
  shows "none_right P st' cur relev \<longleftrightarrow>
           (\<forall>b\<in>set relev. \<not> rectA_leftOf_rectB P (bb (st' cur)) (bb (st b)) False)"
proof -
  have "none_right P st' cur relev =
          fold (\<lambda>b a. if rectA_leftOf_rectB P (bb (st' cur)) (bb (st b)) False then False else a)
            relev True"
    unfolding none_right_def by (rule fold_cong) (simp_all add: assms cong: if_cong)
  then show ?thesis
    by (simp add: fold_flag_all)
qed

lemma push_blocks_not_left:
  assumes "\<And>b. b \<in> set relev \<Longrightarrow> st' b = st b"
  shows "push_all (blocks_not_left P st' cur relev) stack =
           filter (\<lambda>b. \<not> rectA_leftOf_rectB P (bb (st b)) (bb (st' cur)) True) relev @ cur # stack"
proof -
  have "fold (\<lambda>b l. if \<not> rectA_leftOf_rectB P (bb (st' b)) (bb (st' cur)) True then b # l else l)
          relev [] =
        fold (\<lambda>b l. if \<not> rectA_leftOf_rectB P (bb (st b)) (bb (st' cur)) True then b # l else l)
          relev []"
    by (rule fold_cong) (simp_all add: assms cong: if_cong)
  then show ?thesis
    by (simp add: push_all_def blocks_not_left_def fold_push_front_filter fold_push_rev)
qed

lemma push_blocks_not_below:
  assumes "\<And>b. b \<in> set relev \<Longrightarrow> st' b = st b"
  shows "push_all (blocks_not_below P st' cur relev) stack =
           filter (\<lambda>b. \<not> rectA_below_rectB P (bb (st b)) (bb (st' cur)) True) relev @ cur # stack"
proof -
  have "fold (\<lambda>b l. if \<not> rectA_below_rectB P (bb (st' b)) (bb (st' cur)) True then b # l else l)
          relev [] =
        fold (\<lambda>b l. if \<not> rectA_below_rectB P (bb (st b)) (bb (st' cur)) True then b # l else l)
          relev []"
    by (rule fold_cong) (simp_all add: assms cong: if_cong)
  then show ?thesis
    by (simp add: push_all_def blocks_not_below_def fold_push_front_filter fold_push_rev)
qed

lemma popped_nonempty:
  "drop (min (n + 1) (length stack)) stack \<noteq> [] \<Longrightarrow> take (min (n + 1) (length stack)) stack \<noteq> []"
  by (cases stack) auto

lemma place_horizontal_result:
  assumes j: "unat j < 2 ^ 32 - 1"
    and popped: "popped = take (min (unat j + 1) (length (Hi die))) (Hi die)"
    and rest: "rest = drop (min (unat j + 1) (length (Hi die))) (Hi die)"
    and fresh: "cur \<notin> set popped"
    and y: "y = (if rest = [] then 0 else Min ((\<lambda>b. ll_y (bb (st b))) ` set popped))"
    and uy: "dadd (rect_h (bb (st cur))) y = Inr uy"
    and bb1: "bb1 = (bb (st cur))\<lparr>ll_y := y, ur_y := uy\<rparr>"
    and x: "x = Max (insert 0 ((\<lambda>b. ur_x (bb (st b))) `
                 set (filter (\<lambda>b. rectsIntersectVertical P bb1 (bb (st b))) popped)))"
    and ux: "dadd (rect_w (bb (st cur))) x = Inr ux"
    and bb2: "bb2 = bb1\<lparr>ll_x := x, ur_x := ux\<rparr>"
  shows "place_horizontal P cur j die st =
           Inr (die\<lparr>Hi := filter (\<lambda>b. \<not> rectA_leftOf_rectB P (bb (st b)) bb2 True) popped @ cur # rest,
                    Vi := (if \<forall>b\<in>set popped. \<not> rectA_below_rectB P bb2 (bb (st b)) False
                           then cur # Vi die else Vi die)\<rparr>,
                st(cur := (st cur)\<lparr>bb := bb2\<rparr>))"
proof -
  have pop: "pop_relevant (min (unat (j + 1)) (length (Hi die))) [] (Hi die) = Inr (popped, rest)"
    unfolding unat_succ_no_wrap [OF j] popped rest
    by (rule pop_relevant_take_drop) simp
  have front: "(if rest = [] then Inr 0 else lower_front st popped) = Inr y"
    using popped_nonempty [of "unat j" "Hi die"]
    by (auto simp add: y lower_front_Min popped rest)
  define st1 where "st1 = st(cur := (st cur)\<lparr>bb := bb1\<rparr>)"
  define st2 where "st2 = st(cur := (st cur)\<lparr>bb := bb2\<rparr>)"
  have u1: "update_y st cur y = Inr st1"
    by (simp add: update_y_result [of st cur y uy, OF uy] st1_def bb1)
  have st1: "\<And>b. b \<in> set popped \<Longrightarrow> st1 b = st b"
    using fresh by (auto simp add: st1_def)
  have st2: "\<And>b. b \<in> set popped \<Longrightarrow> st2 b = st b"
    using fresh by (auto simp add: st2_def)
  have c1: "bb (st1 cur) = bb1"
    by (simp add: st1_def)
  have xx: "right_front P st1 cur popped = x"
    by (simp add: right_front_Max [of popped st1 st, OF st1] c1 x)
  have "dadd (rect_w (bb (st1 cur))) x = Inr ux"
    by (simp add: c1 bb1 ux)
  from update_x_result [of st1 cur x ux, OF this] have u2: "update_x st1 cur x = Inr st2"
    by (simp add: c1 bb2 st2_def) (simp add: st1_def)
  have c2: "bb (st2 cur) = bb2"
    by (simp add: st2_def)
  have "place_horizontal P cur j die st =
          Inr (die\<lparr>Hi := push_all (blocks_not_left P st2 cur popped) rest,
                   Vi := (if none_above P st2 cur popped then cur # Vi die else Vi die)\<rparr>, st2)"
    unfolding place_horizontal_def pop
    by (simp add: bindE_def front u1 xx u2 Let_def)
  also have "\<dots> = Inr (die\<lparr>Hi := filter (\<lambda>b. \<not> rectA_leftOf_rectB P (bb (st b)) bb2 True) popped @ cur # rest,
                    Vi := (if \<forall>b\<in>set popped. \<not> rectA_below_rectB P bb2 (bb (st b)) False
                           then cur # Vi die else Vi die)\<rparr>, st2)"
    by (simp only: push_blocks_not_left [of popped st2 st, OF st2]
        none_above_iff [of popped st2 st, OF st2] c2)
  finally show ?thesis
    by (simp only: st2_def)
qed

lemma place_vertical_result:
  assumes j: "unat j < 2 ^ 32 - 1"
    and popped: "popped = take (min (unat j + 1) (length (Vi die))) (Vi die)"
    and rest: "rest = drop (min (unat j + 1) (length (Vi die))) (Vi die)"
    and fresh: "cur \<notin> set popped"
    and x: "x = (if rest = [] then 0 else Min ((\<lambda>b. ll_x (bb (st b))) ` set popped))"
    and ux: "dadd (rect_w (bb (st cur))) x = Inr ux"
    and bb1: "bb1 = (bb (st cur))\<lparr>ll_x := x, ur_x := ux\<rparr>"
    and y: "y = Max (insert 0 ((\<lambda>b. ur_y (bb (st b))) `
                 set (filter (\<lambda>b. rectsIntersectHorizontal P bb1 (bb (st b))) popped)))"
    and uy: "dadd (rect_h (bb (st cur))) y = Inr uy"
    and bb2: "bb2 = bb1\<lparr>ll_y := y, ur_y := uy\<rparr>"
  shows "place_vertical P cur j die st =
           Inr (die\<lparr>Hi := (if \<forall>b\<in>set popped. \<not> rectA_leftOf_rectB P bb2 (bb (st b)) False
                           then cur # Hi die else Hi die),
                    Vi := filter (\<lambda>b. \<not> rectA_below_rectB P (bb (st b)) bb2 True) popped @ cur # rest\<rparr>,
                st(cur := (st cur)\<lparr>bb := bb2\<rparr>))"
proof -
  have pop: "pop_relevant (min (unat (j + 1)) (length (Vi die))) [] (Vi die) = Inr (popped, rest)"
    unfolding unat_succ_no_wrap [OF j] popped rest
    by (rule pop_relevant_take_drop) simp
  have front: "(if rest = [] then Inr 0 else left_front st popped) = Inr x"
    using popped_nonempty [of "unat j" "Vi die"]
    by (auto simp add: x left_front_Min popped rest)
  define st1 where "st1 = st(cur := (st cur)\<lparr>bb := bb1\<rparr>)"
  define st2 where "st2 = st(cur := (st cur)\<lparr>bb := bb2\<rparr>)"
  have u1: "update_x st cur x = Inr st1"
    by (simp add: update_x_result [of st cur x ux, OF ux] st1_def bb1)
  have st1: "\<And>b. b \<in> set popped \<Longrightarrow> st1 b = st b"
    using fresh by (auto simp add: st1_def)
  have st2: "\<And>b. b \<in> set popped \<Longrightarrow> st2 b = st b"
    using fresh by (auto simp add: st2_def)
  have c1: "bb (st1 cur) = bb1"
    by (simp add: st1_def)
  have yy: "upper_front P st1 cur popped = y"
    by (simp add: upper_front_Max [of popped st1 st, OF st1] c1 y)
  have "dadd (rect_h (bb (st1 cur))) y = Inr uy"
    by (simp add: c1 bb1 uy)
  from update_y_result [of st1 cur y uy, OF this] have u2: "update_y st1 cur y = Inr st2"
    by (simp add: c1 bb2 st2_def) (simp add: st1_def)
  have c2: "bb (st2 cur) = bb2"
    by (simp add: st2_def)
  have "place_vertical P cur j die st =
          Inr (die\<lparr>Hi := (if none_right P st2 cur popped then cur # Hi die else Hi die),
                   Vi := push_all (blocks_not_below P st2 cur popped) rest\<rparr>, st2)"
    unfolding place_vertical_def pop
    by (simp add: bindE_def front u1 yy u2 Let_def)
  also have "\<dots> = Inr (die\<lparr>Hi := (if \<forall>b\<in>set popped. \<not> rectA_leftOf_rectB P bb2 (bb (st b)) False
                           then cur # Hi die else Hi die),
                    Vi := filter (\<lambda>b. \<not> rectA_below_rectB P (bb (st b)) bb2 True) popped @ cur # rest\<rparr>, st2)"
    by (simp only: push_blocks_not_below [of popped st2 st, OF st2]
        none_right_iff [of popped st2 st, OF st2] c2)
  finally show ?thesis
    by (simp only: st2_def)
qed

lemma placeCurrentBlock_unplaced:
  assumes "\<not> CBL_empty (CBL die)"
    and "tuple_in_range (CBL die) (int (progress_pi die))"
    and "cur = S (CBL die) ! progress_pi die"
    and "j = T (CBL die) ! progress_pi die"
    and "\<not> placed (st cur)"
  shows "placeCurrentBlock P die st =
           bindE (if L (CBL die) ! progress_pi die = HORIZONTAL then place_horizontal P cur j die st
                  else place_vertical P cur j die st)
             (\<lambda>(die', st').
               Inr (Some cur, updateProgressPointerFlag die', st'(cur := (st' cur)\<lparr>placed := True\<rparr>)))"
  using assms
  by (simp add: placeCurrentBlock_def getBlock_def getDirection_def getJunctions_def
      tuple_in_range_def bindE_def)




lemma example_third_finite: "sums_finite example_store_third 2 [1, 0]"
  by code_simp

text \<open>
  The placement of the tuple of \<open>example_die_rounding\<close>. The upper edge of the current
  block is the sum of the doubles 0.1 and 0.5, which is the double 0.6, the lower edge of
  block 1; the exact sum of the two doubles lies above it. So block 1 does not intersect
  the current block, which is placed at the right edge 8 of block 0, and not at the right
  edge 10 of block 1; block 1 stays on the stack \<open>Hi\<close>, above the current block, and the
  current block, which ends where block 1 begins, is not pushed onto the stack \<open>Vi\<close>.
\<close>

lemma placeCurrentBlock_rounding_example:
  "bb (snd (snd (projr (placeCurrentBlock spec_rect_preds example_die_rounding example_store_rounding))) 2) =
     \<lparr>ll_x = 8, ll_y = 1 / 2, ur_x = 13, ur_y = double_0_6,
      rect_w = 5, rect_h = double_0_1, rect_area = 1 / 2\<rparr>"
  "ll_y (bb (example_store_rounding 1)) < rect_h (bb (example_store_rounding 2)) + 1 / 2"
  "Hi (fst (snd (projr (placeCurrentBlock spec_rect_preds example_die_rounding example_store_rounding)))) = [1, 2, 3]"
  "Vi (fst (snd (projr (placeCurrentBlock spec_rect_preds example_die_rounding example_store_rounding)))) = [1]"
  by code_simp+



lemma updateProgressPointerFlag_stacks:
  "Hi (updateProgressPointerFlag die) = Hi die" "Vi (updateProgressPointerFlag die) = Vi die"
  by (simp_all add: updateProgressPointerFlag_def Let_def)

lemma example_third_bb:
  "bb (snd (snd (projr (placeCurrentBlock spec_rect_preds example_die_third example_store_third))) 2) =
     \<lparr>ll_x = 10, ll_y = 0, ur_x = 15, ur_y = 2, rect_w = 5, rect_h = 2, rect_area = 10\<rparr>"
  by code_simp

text \<open>
  C2 (amended). Decoder stack maintenance, under the conditions of C1: the current
  tuple is not yet placed, \<open>j + 1\<close> does not wrap around, the current block is not among
  the blocks to be popped, and the sums of its width and height with the coordinates of
  the popped blocks are finite doubles. The placed block has its coordinates as
  \<open>placeCurrentBlock\<close> assigns them, with the sums of doubles rounded. After placing a
  HORIZONTAL tuple's block, the block is pushed onto the stack \<open>Vi\<close> exactly when it is
  below none of the popped blocks (\<open>rectA_below_rectB\<close>, the intersection not
  considered). The stack \<open>Hi\<close> receives the new block first and then, above it, the
  popped blocks that are not left of the new block (\<open>rectA_leftOf_rectB\<close>, the
  intersection considered), pushed in the reverse of the order they were popped in: read
  from its top, the stack holds those popped blocks in the order they were popped in,
  beneath them the new block, beneath it what was not popped. The VERTICAL case is the
  same with the stacks and the two predicates exchanged.
\<close>

theorem placeCurrentBlock_stacks:
  assumes nonempty: "\<not> CBL_empty (CBL die)"
    and range: "tuple_in_range (CBL die) (int (progress_pi die))"
    and cur: "cur = S (CBL die) ! progress_pi die"
    and dir: "dir = L (CBL die) ! progress_pi die"
    and j: "j = T (CBL die) ! progress_pi die"
    and no_wrap: "unat j < 2 ^ 32 - 1"
    and unplaced: "\<not> placed (st cur)"
    and stack: "stack = (if dir = HORIZONTAL then Hi die else Vi die)"
    and popped: "popped = take (min (unat j + 1) (length stack)) stack"
    and rest: "rest = drop (min (unat j + 1) (length stack)) stack"
    and fresh: "cur \<notin> set popped"
    and finite_sums: "sums_finite st cur popped"
    and die': "die' = fst (snd (projr (placeCurrentBlock P die st)))"
    and placed_bb: "placed_bb = bb (snd (snd (projr (placeCurrentBlock P die st))) cur)"
  shows "\<not> isl (placeCurrentBlock P die st)
       \<and> (dir = HORIZONTAL \<longrightarrow>
            Vi die' = (if \<forall>b\<in>set popped. \<not> rectA_below_rectB P placed_bb (bb (st b)) False
                       then cur # Vi die else Vi die)
          \<and> Hi die' = filter (\<lambda>b. \<not> rectA_leftOf_rectB P (bb (st b)) placed_bb True) popped
                         @ cur # rest)
       \<and> (dir = VERTICAL \<longrightarrow>
            Hi die' = (if \<forall>b\<in>set popped. \<not> rectA_leftOf_rectB P placed_bb (bb (st b)) False
                       then cur # Hi die else Hi die)
          \<and> Vi die' = filter (\<lambda>b. \<not> rectA_below_rectB P (bb (st b)) placed_bb True) popped
                         @ cur # rest)"
proof -
  have some: "popped \<noteq> [] \<or> rest = []"
    using popped_nonempty [of "unat j" stack] by (auto simp add: popped rest)
  note start = placeCurrentBlock_unplaced [where P = P and st = st and die = die and cur = cur and j = j,
      OF nonempty range cur j unplaced]
  show ?thesis
  proof (cases dir)
    case HORIZONTAL
    define y where "y = (if rest = [] then 0 else Min ((\<lambda>b. ll_y (bb (st b))) ` set popped))"
    have "y \<in> set (popped_coordinates st popped)"
      unfolding y_def by (rule front_coordinate [OF some]) (simp_all add: popped_coordinates_mem)
    from sums_finite_dadd(2) [OF finite_sums this]
    obtain uy where uy: "dadd (rect_h (bb (st cur))) y = Inr uy" ..
    define bb1 where "bb1 = (bb (st cur))\<lparr>ll_y := y, ur_y := uy\<rparr>"
    define x where "x = Max (insert 0 ((\<lambda>b. ur_x (bb (st b))) `
                 set (filter (\<lambda>b. rectsIntersectVertical P bb1 (bb (st b))) popped)))"
    have "x \<in> set (popped_coordinates st popped)"
      unfolding x_def by (rule cover_coordinate) (simp_all add: popped_coordinates_mem)
    from sums_finite_dadd(1) [OF finite_sums this]
    obtain ux where ux: "dadd (rect_w (bb (st cur))) x = Inr ux" ..
    define bb2 where "bb2 = bb1\<lparr>ll_x := x, ur_x := ux\<rparr>"
    have s: "stack = Hi die"
      using HORIZONTAL stack by simp
    have run: "placeCurrentBlock P die st =
        Inr (Some cur,
             updateProgressPointerFlag
               (die\<lparr>Hi := filter (\<lambda>b. \<not> rectA_leftOf_rectB P (bb (st b)) bb2 True) popped @ cur # rest,
                    Vi := (if \<forall>b\<in>set popped. \<not> rectA_below_rectB P bb2 (bb (st b)) False
                           then cur # Vi die else Vi die)\<rparr>),
             (st(cur := (st cur)\<lparr>bb := bb2\<rparr>))(cur := ((st(cur := (st cur)\<lparr>bb := bb2\<rparr>)) cur)\<lparr>placed := True\<rparr>))"
      unfolding start
      using HORIZONTAL dir
        place_horizontal_result [OF no_wrap popped [unfolded s] rest [unfolded s] fresh y_def uy bb1_def x_def ux bb2_def]
      by (simp add: bindE_def)
    have pb: "placed_bb = bb2"
      unfolding placed_bb run by simp
    have d: "die' = updateProgressPointerFlag
               (die\<lparr>Hi := filter (\<lambda>b. \<not> rectA_leftOf_rectB P (bb (st b)) bb2 True) popped @ cur # rest,
                    Vi := (if \<forall>b\<in>set popped. \<not> rectA_below_rectB P bb2 (bb (st b)) False
                           then cur # Vi die else Vi die)\<rparr>)"
      unfolding die' run by simp
    have ok: "\<not> isl (placeCurrentBlock P die st)"
      by (simp add: run)
    show ?thesis
      using HORIZONTAL ok
      by (simp add: d pb updateProgressPointerFlag_stacks)
  next
    case VERTICAL
    define x where "x = (if rest = [] then 0 else Min ((\<lambda>b. ll_x (bb (st b))) ` set popped))"
    have "x \<in> set (popped_coordinates st popped)"
      unfolding x_def by (rule front_coordinate [OF some]) (simp_all add: popped_coordinates_mem)
    from sums_finite_dadd(1) [OF finite_sums this]
    obtain ux where ux: "dadd (rect_w (bb (st cur))) x = Inr ux" ..
    define bb1 where "bb1 = (bb (st cur))\<lparr>ll_x := x, ur_x := ux\<rparr>"
    define y where "y = Max (insert 0 ((\<lambda>b. ur_y (bb (st b))) `
                 set (filter (\<lambda>b. rectsIntersectHorizontal P bb1 (bb (st b))) popped)))"
    have "y \<in> set (popped_coordinates st popped)"
      unfolding y_def by (rule cover_coordinate) (simp_all add: popped_coordinates_mem)
    from sums_finite_dadd(2) [OF finite_sums this]
    obtain uy where uy: "dadd (rect_h (bb (st cur))) y = Inr uy" ..
    define bb2 where "bb2 = bb1\<lparr>ll_y := y, ur_y := uy\<rparr>"
    have s: "stack = Vi die"
      using VERTICAL stack by simp
    have run: "placeCurrentBlock P die st =
        Inr (Some cur,
             updateProgressPointerFlag
               (die\<lparr>Hi := (if \<forall>b\<in>set popped. \<not> rectA_leftOf_rectB P bb2 (bb (st b)) False
                           then cur # Hi die else Hi die),
                    Vi := filter (\<lambda>b. \<not> rectA_below_rectB P (bb (st b)) bb2 True) popped @ cur # rest\<rparr>),
             (st(cur := (st cur)\<lparr>bb := bb2\<rparr>))(cur := ((st(cur := (st cur)\<lparr>bb := bb2\<rparr>)) cur)\<lparr>placed := True\<rparr>))"
      unfolding start
      using VERTICAL dir
        place_vertical_result [OF no_wrap popped [unfolded s] rest [unfolded s] fresh x_def ux bb1_def y_def uy bb2_def]
      by (simp add: bindE_def)
    have pb: "placed_bb = bb2"
      unfolding placed_bb run by simp
    have d: "die' = updateProgressPointerFlag
               (die\<lparr>Hi := (if \<forall>b\<in>set popped. \<not> rectA_leftOf_rectB P bb2 (bb (st b)) False
                           then cur # Hi die else Hi die),
                    Vi := filter (\<lambda>b. \<not> rectA_below_rectB P (bb (st b)) bb2 True) popped @ cur # rest\<rparr>)"
      unfolding die' run by simp
    have ok: "\<not> isl (placeCurrentBlock P die st)"
      by (simp add: run)
    show ?thesis
      using VERTICAL ok
      by (simp add: d pb updateProgressPointerFlag_stacks)
  qed
qed


theorem placeCurrentBlock_stacks_witness:
  "\<not> CBL_empty (CBL example_die_third)
   \<and> tuple_in_range (CBL example_die_third) (int (progress_pi example_die_third))
   \<and> \<not> placed (example_store_third 2)
   \<and> sums_finite example_store_third 2 [1, 0]
   \<and> Hi example_die_third = [1, 0]
   \<and> Vi (fst (snd (projr (placeCurrentBlock spec_rect_preds example_die_third example_store_third)))) = [1]
   \<and> Hi (fst (snd (projr (placeCurrentBlock spec_rect_preds example_die_third example_store_third)))) = [1, 2]"
proof -
  have h1: "\<not> CBL_empty (CBL example_die_third)"
    by (simp add: example_die_third_def example_die_def CBL_empty_def)
  have h2: "tuple_in_range (CBL example_die_third) (int (progress_pi example_die_third))"
    by (simp add: example_die_third_def example_die_def tuple_in_range_def)
  have h3: "2 = S (CBL example_die_third) ! progress_pi example_die_third"
    by (simp add: example_die_third_def example_die_def)
  have h4: "HORIZONTAL = L (CBL example_die_third) ! progress_pi example_die_third"
    by (simp add: example_die_third_def example_die_def)
  have h5: "1 = T (CBL example_die_third) ! progress_pi example_die_third"
    by (simp add: example_die_third_def example_die_def)
  have h6: "unat (1 :: 32 word) < 2 ^ 32 - 1"
    by simp
  have h7: "\<not> placed (example_store_third 2)"
    by (simp add: example_store_third_def example_block_def)
  have h8: "[1, 0] = (if HORIZONTAL = HORIZONTAL then Hi example_die_third else Vi example_die_third)"
    by (simp add: example_die_third_def example_die_def)
  have h9: "[1, 0] = take (min (unat (1 :: 32 word) + 1) (length [1, 0::nat])) [1, 0::nat]"
    by simp
  have h10: "[] = drop (min (unat (1 :: 32 word) + 1) (length [1, 0::nat])) [1, 0::nat]"
    by simp
  have h11: "(2::nat) \<notin> set [1, 0]"
    by simp
  note h12 = example_third_finite
  have s: "bb (example_store_third 0) = \<lparr>ll_x = 0, ll_y = 0, ur_x = 10, ur_y = 4, rect_w = 10, rect_h = 4, rect_area = 40\<rparr>"
    "bb (example_store_third (Suc 0)) = \<lparr>ll_x = 0, ll_y = 4, ur_x = 10, ur_y = 8, rect_w = 10, rect_h = 4, rect_area = 40\<rparr>"
    by (simp_all add: example_store_third_def example_block_def)
  have hi: "Hi example_die_third = [1, 0]" and vi: "Vi example_die_third = [1]"
    by (simp_all add: example_die_third_def example_die_def)
  define pb where
    "pb = bb (snd (snd (projr (placeCurrentBlock spec_rect_preds example_die_third example_store_third))) 2)"
  define d where
    "d = fst (snd (projr (placeCurrentBlock spec_rect_preds example_die_third example_store_third)))"
  have pbv: "pb = \<lparr>ll_x = 10, ll_y = 0, ur_x = 15, ur_y = 2, rect_w = 5, rect_h = 2, rect_area = 10\<rparr>"
    unfolding pb_def by (rule example_third_bb)
  note th = placeCurrentBlock_stacks [where P = spec_rect_preds and st = example_store_third
      and dir = HORIZONTAL and die = example_die_third,
      OF h1 h2 h3 h4 h5 h6 h7 h8 h9 h10 h11 h12 d_def pb_def]
  from th have v: "Vi d = [1]"
    by (simp add: pbv s vi spec_rect_preds_def)
  from th have h: "Hi d = [1, 2]"
    by (simp add: pbv s spec_rect_preds_def)
  show ?thesis
    using h1 h2 h7 h12 hi v h unfolding d_def by simp
qed

text \<open>
  The claim as stated has the new block pushed after the popped blocks that are pushed
  back, which would leave it on top of the stack. The third placement of the example
  pops blocks 1 and 0 and pushes block 1 back: the stack \<open>Hi\<close> then holds block 1 above
  the new block 2.
\<close>

theorem placeCurrentBlock_new_block_beneath_kept:
  "\<not> isl (placeCurrentBlock spec_rect_preds example_die_third example_store_third)
   \<and> Hi (fst (snd (projr (placeCurrentBlock spec_rect_preds example_die_third example_store_third)))) = [1, 2]
   \<and> Hi (fst (snd (projr (placeCurrentBlock spec_rect_preds example_die_third example_store_third)))) \<noteq> [2, 1]"
  by code_simp

end
